theory Spec2Isabelle
  imports Main "HOL-Library.Word"
begin

section \<open>TinyHRM: the Human Resource Machine interpreter of main.c\<close>

text \<open>
  A shallow embedding of \<^verbatim>\<open>src/common/main.c\<close>. The program is written for an AVR
  microcontroller (it includes \<^verbatim>\<open>avr/io.h\<close>), where \<^verbatim>\<open>int\<close> has 16 bits. So
  \<^verbatim>\<open>int16_t\<close> is \<^verbatim>\<open>int\<close>, \<^verbatim>\<open>uint16_t\<close> is \<^verbatim>\<open>unsigned int\<close>, and a comparison
  between the two converts the signed operand to unsigned. Machine integers are words:
  \<open>+\<close> and \<open>-\<close> wrap around, \<open>\<le>\<close> and \<open><\<close> on words compare unsigned, and \<open>sint\<close>
  reads a word as two's complement where the source compares signed values.
\<close>

subsection \<open>Values, instructions and error codes\<close>

text \<open>\<^verbatim>\<open>HRMValueType_t\<close>. The enumerator \<^verbatim>\<open>CHAR\<close> is written \<open>CHAR'\<close>: \<open>CHAR\<close> is notation of
  the library.\<close>

datatype HRMValueType = EMPTY | CHAR' | NUM | MEM_ADDR | PROG_ADDR

type_synonym hrm_num = "16 word"

text \<open>
  \<^verbatim>\<open>HRMVal_t\<close>: the type flag and the payload. The payload is a union of an \<^verbatim>\<open>int16_t\<close>
  and a \<^verbatim>\<open>uint8_t\<close>; \<open>execute\<close> only ever reads and writes the member \<^verbatim>\<open>n\<close>, which is
  the field \<open>val_n\<close> (the member \<^verbatim>\<open>c\<close> is its low byte).
\<close>

record HRMVal =
  type :: HRMValueType
  val_n :: hrm_num

datatype HRMInstructionType =
    INBOX | OUTBOX
  | COPYFROM | COPYFROM_IND
  | COPYTO | COPYTO_IND
  | ADD | ADD_IND
  | SUB | SUB_IND
  | BUMP_PLUS | BUMP_PLUS_IND
  | BUMP_MINUS | BUMP_MINUS_IND
  | JUMP | JUMP_ZERO | JUMP_NEGATIVE

record HRMInstruction =
  inst :: HRMInstructionType
  param :: HRMVal

text \<open>\<^verbatim>\<open>HRMErr_t\<close>, in the order of the enumeration: \<open>ERR_NONE\<close> is 0, \<open>ERR_BAD_PARAM_TYPE\<close> is 1.\<close>

datatype HRMErr =
    ERR_NONE
  | ERR_BAD_PARAM_TYPE
  | ERR_EMPTY_HANDS
  | ERR_INVALID_TYPE_FOR_DIRECT_ADDR
  | ERR_DIRECT_ADDR_OUT_OF_RANGE
  | ERR_INVALID_TYPE_FOR_INDIRECT_ADDR
  | ERR_INDIRECT_ADDR_OUT_OF_RANGE
  | ERR_COPYFROM_READING_EMPTY_ADDR
  | ERR_COPYFROM_IND_READING_EMPTY_ADDR
  | ERR_BAD_ADDEND_TYPE_IN_HANDS
  | ERR_BAD_SUBTRAHEND_TYPE_IN_HANDS
  | ERR_BAD_ADDEND_TYPE_IN_MEMORY
  | ERR_BAD_SUBTRAHEND_TYPE_IN_MEMORY
  | ERR_BAD_TYPE_FOR_BUMP_IN_MEMORY
  | ERR_OVERFLOW
  | ERR_UNDERFLOW

definition NUM_INBOX_VALUES :: int where
  "NUM_INBOX_VALUES = 8"

definition MAX_INSTRUCTIONS_ALLOWED :: "16 word" where
  "MAX_INSTRUCTIONS_ALLOWED = 1000"

subsection \<open>Arrays\<close>

text \<open>
  A C array is a list. An access outside the array is undefined behaviour in C; the
  model makes it the result \<open>OutOfBounds\<close>, so that no theorem rests on what such an
  access would return.
\<close>

datatype 'a checked = OutOfBounds | Ok 'a

definition array_read :: "'a list \<Rightarrow> int \<Rightarrow> 'a checked" where
  "array_read xs i =
     (if 0 \<le> i \<and> i < int (length xs) then Ok (xs ! nat i) else OutOfBounds)"

definition array_write :: "'a list \<Rightarrow> int \<Rightarrow> 'a \<Rightarrow> 'a list checked" where
  "array_write xs i v =
     (if 0 \<le> i \<and> i < int (length xs) then Ok (xs[nat i := v]) else OutOfBounds)"

text \<open>The expression \<^verbatim>\<open>mem[mem[p.val.n].val.n]\<close>, read and written.\<close>

definition read_indirect :: "HRMVal list \<Rightarrow> HRMVal \<Rightarrow> HRMVal checked" where
  "read_indirect mem p =
     (case array_read mem (sint (val_n p)) of
        OutOfBounds \<Rightarrow> OutOfBounds
      | Ok cell \<Rightarrow> array_read mem (sint (val_n cell)))"

definition write_indirect :: "HRMVal list \<Rightarrow> HRMVal \<Rightarrow> HRMVal \<Rightarrow> HRMVal list checked" where
  "write_indirect mem p v =
     (case array_read mem (sint (val_n p)) of
        OutOfBounds \<Rightarrow> OutOfBounds
      | Ok cell \<Rightarrow> array_write mem (sint (val_n cell)) v)"

subsection \<open>The checks on the hands and on addresses\<close>

definition verify_hands_not_empty :: "HRMVal \<Rightarrow> HRMErr" where
  "verify_hands_not_empty hands = (if type hands = EMPTY then ERR_EMPTY_HANDS else ERR_NONE)"

definition verify_hands_hold_number :: "HRMVal \<Rightarrow> HRMErr" where
  "verify_hands_hold_number hands =
     (let ret_val = verify_hands_not_empty hands
      in if ret_val = ERR_NONE \<and> type hands \<noteq> NUM then ERR_BAD_ADDEND_TYPE_IN_HANDS
         else ret_val)"

text \<open>
  \<^verbatim>\<open>direct_addr.val.n >= ( uint16_t )mem_len\<close> compares an \<^verbatim>\<open>int16_t\<close> with a
  \<^verbatim>\<open>uint16_t\<close>: with 16-bit \<^verbatim>\<open>int\<close> both sides are converted to \<^verbatim>\<open>unsigned int\<close>,
  which is the order of \<open>16 word\<close>.
\<close>

definition verify_direct_addr :: "HRMVal \<Rightarrow> HRMVal list \<Rightarrow> 8 word \<Rightarrow> HRMErr" where
  "verify_direct_addr direct_addr mem mem_len =
     (if type direct_addr \<noteq> NUM then ERR_INVALID_TYPE_FOR_DIRECT_ADDR
      else if (ucast mem_len :: 16 word) \<le> val_n direct_addr then ERR_DIRECT_ADDR_OUT_OF_RANGE
      else ERR_NONE)"

definition verify_indirect_addr :: "HRMVal \<Rightarrow> HRMVal list \<Rightarrow> 8 word \<Rightarrow> HRMErr checked" where
  "verify_indirect_addr indirect_addr mem mem_len =
     (if type indirect_addr \<noteq> NUM then Ok ERR_INVALID_TYPE_FOR_INDIRECT_ADDR
      else if (ucast mem_len :: 16 word) \<le> val_n indirect_addr
        then Ok ERR_INDIRECT_ADDR_OUT_OF_RANGE
      else (case array_read mem (sint (val_n indirect_addr)) of
              OutOfBounds \<Rightarrow> OutOfBounds
            | Ok cell \<Rightarrow> Ok (verify_direct_addr cell mem mem_len)))"

subsection \<open>The state of a run\<close>

text \<open>
  The file-level variables \<open>hands\<close>, \<open>in_fifo\<close> and \<open>out_fifo\<close>, the caller's array
  \<open>mem\<close>, and the local variables of \<open>execute\<close>. The local \<^verbatim>\<open>value\<close> is assigned
  before each use and is not part of the state.
\<close>

record exec_state =
  hands :: HRMVal
  in_fifo :: "HRMVal list"
  out_fifo :: "HRMVal list"
  mem :: "HRMVal list"
  pgm_num_instructions_executed :: "16 word"
  pgm_pc :: "16 word"
  inbox_empty :: "8 word"
  in_fifo_val_idx :: "8 word"
  out_fifo_num_vals :: "8 word"
  err :: HRMErr

subsection \<open>The cases of the switch\<close>

text \<open>
  One definition per \<^verbatim>\<open>case\<close> of the switch in \<open>execute\<close>, each with the assignments
  of the source in the source's order. The counter \<open>pgm_num_instructions_executed\<close> and
  the program counter are written exactly where the source writes them.
\<close>

definition case_INBOX :: "exec_state \<Rightarrow> exec_state checked" where
  "case_INBOX s =
     (if NUM_INBOX_VALUES \<le> uint (in_fifo_val_idx s)
      then Ok (s\<lparr>inbox_empty := 1,
                 pgm_num_instructions_executed := pgm_num_instructions_executed s + 1\<rparr>)
      else (case array_read (in_fifo s) (uint (in_fifo_val_idx s)) of
              OutOfBounds \<Rightarrow> OutOfBounds
            | Ok v \<Rightarrow>
                Ok (s\<lparr>hands := v,
                      in_fifo_val_idx := in_fifo_val_idx s + 1,
                      pgm_pc := pgm_pc s + 1,
                      pgm_num_instructions_executed := pgm_num_instructions_executed s + 1\<rparr>)))"

definition case_OUTBOX :: "exec_state \<Rightarrow> exec_state checked" where
  "case_OUTBOX s =
     (if type (hands s) = EMPTY
      then Ok (s\<lparr>err := ERR_EMPTY_HANDS,
                 pgm_num_instructions_executed := pgm_num_instructions_executed s + 1\<rparr>)
      else (case array_write (out_fifo s) (uint (out_fifo_num_vals s)) (hands s) of
              OutOfBounds \<Rightarrow> OutOfBounds
            | Ok out \<Rightarrow>
                Ok (s\<lparr>out_fifo := out,
                      out_fifo_num_vals := out_fifo_num_vals s + 1,
                      pgm_pc := pgm_pc s + 1,
                      pgm_num_instructions_executed := pgm_num_instructions_executed s + 1\<rparr>)))"

definition case_COPYFROM :: "HRMVal \<Rightarrow> 8 word \<Rightarrow> exec_state \<Rightarrow> exec_state checked" where
  "case_COPYFROM p mem_len s =
     (let s1 = s\<lparr>err := verify_direct_addr p (mem s) mem_len\<rparr>
      in if err s1 = ERR_NONE
         then (case array_read (mem s1) (sint (val_n p)) of
                 OutOfBounds \<Rightarrow> OutOfBounds
               | Ok v \<Rightarrow>
                   if type v = EMPTY then Ok (s1\<lparr>err := ERR_COPYFROM_READING_EMPTY_ADDR\<rparr>)
                   else Ok (s1\<lparr>hands := v\<rparr>))
         else Ok s1)"

definition case_COPYFROM_IND :: "HRMVal \<Rightarrow> 8 word \<Rightarrow> exec_state \<Rightarrow> exec_state checked" where
  "case_COPYFROM_IND p mem_len s =
     (case verify_indirect_addr p (mem s) mem_len of
        OutOfBounds \<Rightarrow> OutOfBounds
      | Ok e \<Rightarrow>
          (let s1 = s\<lparr>err := e\<rparr>
           in if err s1 = ERR_NONE
              then (case read_indirect (mem s1) p of
                      OutOfBounds \<Rightarrow> OutOfBounds
                    | Ok v \<Rightarrow>
                        if type v = EMPTY
                        then Ok (s1\<lparr>err := ERR_COPYFROM_IND_READING_EMPTY_ADDR\<rparr>)
                        else Ok (s1\<lparr>hands := v\<rparr>))
              else Ok s1))"

text \<open>
  \<^verbatim>\<open>mem[...] = hands; hands.type = EMPTY;\<close> The hands are not checked before the copy, and
  only their type flag is reset.
\<close>

definition case_COPYTO :: "HRMVal \<Rightarrow> 8 word \<Rightarrow> exec_state \<Rightarrow> exec_state checked" where
  "case_COPYTO p mem_len s =
     (let s1 = s\<lparr>err := verify_direct_addr p (mem s) mem_len\<rparr>
      in if err s1 = ERR_NONE
         then (case array_write (mem s1) (sint (val_n p)) (hands s1) of
                 OutOfBounds \<Rightarrow> OutOfBounds
               | Ok m \<Rightarrow> Ok (s1\<lparr>mem := m, hands := (hands s1)\<lparr>type := EMPTY\<rparr>\<rparr>))
         else Ok s1)"

definition case_COPYTO_IND :: "HRMVal \<Rightarrow> 8 word \<Rightarrow> exec_state \<Rightarrow> exec_state checked" where
  "case_COPYTO_IND p mem_len s =
     (case verify_indirect_addr p (mem s) mem_len of
        OutOfBounds \<Rightarrow> OutOfBounds
      | Ok e \<Rightarrow>
          (let s1 = s\<lparr>err := e\<rparr>
           in if err s1 = ERR_NONE
              then (case write_indirect (mem s1) p (hands s1) of
                      OutOfBounds \<Rightarrow> OutOfBounds
                    | Ok m \<Rightarrow> Ok (s1\<lparr>mem := m, hands := (hands s1)\<lparr>type := EMPTY\<rparr>\<rparr>))
              else Ok s1))"

text \<open>
  \<^verbatim>\<open>hands.val.n += value.val.n\<close> is done in place, before the result is compared; both
  comparisons are against 999. The addition is the 16-bit two's complement one (a sum
  outside the 16-bit range, which C leaves undefined, wraps around in the model).
\<close>

definition case_ADD :: "HRMVal \<Rightarrow> 8 word \<Rightarrow> exec_state \<Rightarrow> exec_state checked" where
  "case_ADD p mem_len s =
     (if verify_hands_hold_number (hands s) \<noteq> ERR_NONE
      then Ok (s\<lparr>err := ERR_BAD_ADDEND_TYPE_IN_HANDS\<rparr>)
      else
        (let s1 = s\<lparr>err := verify_direct_addr p (mem s) mem_len\<rparr>
         in if err s1 = ERR_NONE
            then (case array_read (mem s1) (sint (val_n p)) of
                    OutOfBounds \<Rightarrow> OutOfBounds
                  | Ok v \<Rightarrow>
                      if type v \<noteq> NUM then Ok (s1\<lparr>err := ERR_BAD_ADDEND_TYPE_IN_MEMORY\<rparr>)
                      else
                        (let s2 = s1\<lparr>hands := (hands s1)\<lparr>val_n := val_n (hands s1) + val_n v\<rparr>\<rparr>
                         in if sint (val_n (hands s2)) < 999 then Ok (s2\<lparr>err := ERR_UNDERFLOW\<rparr>)
                            else if 999 < sint (val_n (hands s2)) then Ok (s2\<lparr>err := ERR_OVERFLOW\<rparr>)
                            else Ok s2))
            else Ok s1))"

definition case_ADD_IND :: "HRMVal \<Rightarrow> 8 word \<Rightarrow> exec_state \<Rightarrow> exec_state checked" where
  "case_ADD_IND p mem_len s =
     (if verify_hands_hold_number (hands s) \<noteq> ERR_NONE
      then Ok (s\<lparr>err := ERR_BAD_ADDEND_TYPE_IN_HANDS\<rparr>)
      else
        (case verify_indirect_addr p (mem s) mem_len of
           OutOfBounds \<Rightarrow> OutOfBounds
         | Ok e \<Rightarrow>
             (let s1 = s\<lparr>err := e\<rparr>
              in if err s1 = ERR_NONE
                 then (case read_indirect (mem s1) p of
                         OutOfBounds \<Rightarrow> OutOfBounds
                       | Ok v \<Rightarrow>
                           if type v \<noteq> NUM then Ok (s1\<lparr>err := ERR_BAD_ADDEND_TYPE_IN_MEMORY\<rparr>)
                           else
                             (let s2 = s1\<lparr>hands := (hands s1)\<lparr>val_n := val_n (hands s1) + val_n v\<rparr>\<rparr>
                              in if sint (val_n (hands s2)) < 999 then Ok (s2\<lparr>err := ERR_UNDERFLOW\<rparr>)
                                 else if 999 < sint (val_n (hands s2))
                                   then Ok (s2\<lparr>err := ERR_OVERFLOW\<rparr>)
                                 else Ok s2))
                 else Ok s1)))"

definition case_SUB :: "HRMVal \<Rightarrow> 8 word \<Rightarrow> exec_state \<Rightarrow> exec_state checked" where
  "case_SUB p mem_len s =
     (if verify_hands_hold_number (hands s) \<noteq> ERR_NONE
      then Ok (s\<lparr>err := ERR_BAD_SUBTRAHEND_TYPE_IN_HANDS\<rparr>)
      else
        (let s1 = s\<lparr>err := verify_direct_addr p (mem s) mem_len\<rparr>
         in if err s1 = ERR_NONE
            then (case array_read (mem s1) (sint (val_n p)) of
                    OutOfBounds \<Rightarrow> OutOfBounds
                  | Ok v \<Rightarrow>
                      if type v \<noteq> NUM then Ok (s1\<lparr>err := ERR_BAD_SUBTRAHEND_TYPE_IN_MEMORY\<rparr>)
                      else
                        (let s2 = s1\<lparr>hands := (hands s1)\<lparr>val_n := val_n (hands s1) - val_n v\<rparr>\<rparr>
                         in if sint (val_n (hands s2)) < 999 then Ok (s2\<lparr>err := ERR_UNDERFLOW\<rparr>)
                            else if 999 < sint (val_n (hands s2)) then Ok (s2\<lparr>err := ERR_OVERFLOW\<rparr>)
                            else Ok s2))
            else Ok s1))"

definition case_SUB_IND :: "HRMVal \<Rightarrow> 8 word \<Rightarrow> exec_state \<Rightarrow> exec_state checked" where
  "case_SUB_IND p mem_len s =
     (if verify_hands_hold_number (hands s) \<noteq> ERR_NONE
      then Ok (s\<lparr>err := ERR_BAD_SUBTRAHEND_TYPE_IN_HANDS\<rparr>)
      else
        (case verify_indirect_addr p (mem s) mem_len of
           OutOfBounds \<Rightarrow> OutOfBounds
         | Ok e \<Rightarrow>
             (let s1 = s\<lparr>err := e\<rparr>
              in if err s1 = ERR_NONE
                 then (case read_indirect (mem s1) p of
                         OutOfBounds \<Rightarrow> OutOfBounds
                       | Ok v \<Rightarrow>
                           if type v \<noteq> NUM
                           then Ok (s1\<lparr>err := ERR_BAD_SUBTRAHEND_TYPE_IN_MEMORY\<rparr>)
                           else
                             (let s2 = s1\<lparr>hands := (hands s1)\<lparr>val_n := val_n (hands s1) - val_n v\<rparr>\<rparr>
                              in if sint (val_n (hands s2)) < 999 then Ok (s2\<lparr>err := ERR_UNDERFLOW\<rparr>)
                                 else if 999 < sint (val_n (hands s2))
                                   then Ok (s2\<lparr>err := ERR_OVERFLOW\<rparr>)
                                 else Ok s2))
                 else Ok s1)))"

text \<open>
  The bumps change the local copy \<^verbatim>\<open>value\<close> and store it to the cell and to the hands
  only when the comparison passes.
\<close>

definition case_BUMP_PLUS :: "HRMVal \<Rightarrow> 8 word \<Rightarrow> exec_state \<Rightarrow> exec_state checked" where
  "case_BUMP_PLUS p mem_len s =
     (let s1 = s\<lparr>err := verify_direct_addr p (mem s) mem_len\<rparr>
      in if err s1 = ERR_NONE
         then (case array_read (mem s1) (sint (val_n p)) of
                 OutOfBounds \<Rightarrow> OutOfBounds
               | Ok v \<Rightarrow>
                   if type v \<noteq> NUM then Ok (s1\<lparr>err := ERR_BAD_TYPE_FOR_BUMP_IN_MEMORY\<rparr>)
                   else
                     (let v1 = v\<lparr>val_n := val_n v + 1\<rparr>
                      in if 999 < sint (val_n v1) then Ok (s1\<lparr>err := ERR_OVERFLOW\<rparr>)
                         else (case array_write (mem s1) (sint (val_n p)) v1 of
                                 OutOfBounds \<Rightarrow> OutOfBounds
                               | Ok m \<Rightarrow> Ok (s1\<lparr>mem := m, hands := v1\<rparr>))))
         else Ok s1)"

definition case_BUMP_PLUS_IND :: "HRMVal \<Rightarrow> 8 word \<Rightarrow> exec_state \<Rightarrow> exec_state checked" where
  "case_BUMP_PLUS_IND p mem_len s =
     (case verify_indirect_addr p (mem s) mem_len of
        OutOfBounds \<Rightarrow> OutOfBounds
      | Ok e \<Rightarrow>
          (let s1 = s\<lparr>err := e\<rparr>
           in if err s1 = ERR_NONE
              then (case read_indirect (mem s1) p of
                      OutOfBounds \<Rightarrow> OutOfBounds
                    | Ok v \<Rightarrow>
                        if type v \<noteq> NUM then Ok (s1\<lparr>err := ERR_BAD_TYPE_FOR_BUMP_IN_MEMORY\<rparr>)
                        else
                          (let v1 = v\<lparr>val_n := val_n v + 1\<rparr>
                           in if 999 < sint (val_n v1) then Ok (s1\<lparr>err := ERR_OVERFLOW\<rparr>)
                              else (case write_indirect (mem s1) p v1 of
                                      OutOfBounds \<Rightarrow> OutOfBounds
                                    | Ok m \<Rightarrow> Ok (s1\<lparr>mem := m, hands := v1\<rparr>))))
              else Ok s1))"

definition case_BUMP_MINUS :: "HRMVal \<Rightarrow> 8 word \<Rightarrow> exec_state \<Rightarrow> exec_state checked" where
  "case_BUMP_MINUS p mem_len s =
     (let s1 = s\<lparr>err := verify_direct_addr p (mem s) mem_len\<rparr>
      in if err s1 = ERR_NONE
         then (case array_read (mem s1) (sint (val_n p)) of
                 OutOfBounds \<Rightarrow> OutOfBounds
               | Ok v \<Rightarrow>
                   if type v \<noteq> NUM then Ok (s1\<lparr>err := ERR_BAD_TYPE_FOR_BUMP_IN_MEMORY\<rparr>)
                   else
                     (let v1 = v\<lparr>val_n := val_n v - 1\<rparr>
                      in if sint (val_n v1) < 999 then Ok (s1\<lparr>err := ERR_UNDERFLOW\<rparr>)
                         else (case array_write (mem s1) (sint (val_n p)) v1 of
                                 OutOfBounds \<Rightarrow> OutOfBounds
                               | Ok m \<Rightarrow> Ok (s1\<lparr>mem := m, hands := v1\<rparr>))))
         else Ok s1)"

definition case_BUMP_MINUS_IND :: "HRMVal \<Rightarrow> 8 word \<Rightarrow> exec_state \<Rightarrow> exec_state checked" where
  "case_BUMP_MINUS_IND p mem_len s =
     (case verify_indirect_addr p (mem s) mem_len of
        OutOfBounds \<Rightarrow> OutOfBounds
      | Ok e \<Rightarrow>
          (let s1 = s\<lparr>err := e\<rparr>
           in if err s1 = ERR_NONE
              then (case read_indirect (mem s1) p of
                      OutOfBounds \<Rightarrow> OutOfBounds
                    | Ok v \<Rightarrow>
                        if type v \<noteq> NUM then Ok (s1\<lparr>err := ERR_BAD_TYPE_FOR_BUMP_IN_MEMORY\<rparr>)
                        else
                          (let v1 = v\<lparr>val_n := val_n v - 1\<rparr>
                           in if sint (val_n v1) < 999 then Ok (s1\<lparr>err := ERR_UNDERFLOW\<rparr>)
                              else (case write_indirect (mem s1) p v1 of
                                      OutOfBounds \<Rightarrow> OutOfBounds
                                    | Ok m \<Rightarrow> Ok (s1\<lparr>mem := m, hands := v1\<rparr>))))
              else Ok s1))"

text \<open>
  \<^verbatim>\<open>pgm_pc = pgm[pgm_pc].param.val.n - 1\<close>: the one-based target, converted to an index.
  The conditional jumps set \<^verbatim>\<open>err = 1\<close>, which is \<open>ERR_BAD_PARAM_TYPE\<close>.
\<close>

definition case_JUMP :: "HRMVal \<Rightarrow> exec_state \<Rightarrow> exec_state checked" where
  "case_JUMP p s =
     Ok (s\<lparr>pgm_pc := val_n p - 1,
           pgm_num_instructions_executed := pgm_num_instructions_executed s + 1\<rparr>)"

definition case_JUMP_ZERO :: "HRMVal \<Rightarrow> exec_state \<Rightarrow> exec_state checked" where
  "case_JUMP_ZERO p s =
     (let s1 = (if type (hands s) \<noteq> NUM then s\<lparr>err := ERR_BAD_PARAM_TYPE\<rparr>
                else if val_n (hands s) = 0 then s\<lparr>pgm_pc := val_n p - 1\<rparr>
                else s\<lparr>pgm_pc := pgm_pc s + 1\<rparr>)
      in Ok (s1\<lparr>pgm_num_instructions_executed := pgm_num_instructions_executed s1 + 1\<rparr>))"

definition case_JUMP_NEGATIVE :: "HRMVal \<Rightarrow> exec_state \<Rightarrow> exec_state checked" where
  "case_JUMP_NEGATIVE p s =
     (let s1 = (if type (hands s) \<noteq> NUM then s\<lparr>err := ERR_BAD_PARAM_TYPE\<rparr>
                else if sint (val_n (hands s)) < 0 then s\<lparr>pgm_pc := val_n p - 1\<rparr>
                else s\<lparr>pgm_pc := pgm_pc s + 1\<rparr>)
      in Ok (s1\<lparr>pgm_num_instructions_executed := pgm_num_instructions_executed s1 + 1\<rparr>))"

subsection \<open>The loop of \<open>execute\<close>\<close>

text \<open>The switch on \<^verbatim>\<open>pgm[pgm_pc].inst\<close>. The type of instructions has no other value, so
  the \<^verbatim>\<open>default\<close> case of the source is never taken.\<close>

definition dispatch :: "HRMInstruction \<Rightarrow> 8 word \<Rightarrow> exec_state \<Rightarrow> exec_state checked" where
  "dispatch i mem_len s =
     (case inst i of
        INBOX \<Rightarrow> case_INBOX s
      | OUTBOX \<Rightarrow> case_OUTBOX s
      | COPYFROM \<Rightarrow> case_COPYFROM (param i) mem_len s
      | COPYFROM_IND \<Rightarrow> case_COPYFROM_IND (param i) mem_len s
      | COPYTO \<Rightarrow> case_COPYTO (param i) mem_len s
      | COPYTO_IND \<Rightarrow> case_COPYTO_IND (param i) mem_len s
      | ADD \<Rightarrow> case_ADD (param i) mem_len s
      | ADD_IND \<Rightarrow> case_ADD_IND (param i) mem_len s
      | SUB \<Rightarrow> case_SUB (param i) mem_len s
      | SUB_IND \<Rightarrow> case_SUB_IND (param i) mem_len s
      | BUMP_PLUS \<Rightarrow> case_BUMP_PLUS (param i) mem_len s
      | BUMP_PLUS_IND \<Rightarrow> case_BUMP_PLUS_IND (param i) mem_len s
      | BUMP_MINUS \<Rightarrow> case_BUMP_MINUS (param i) mem_len s
      | BUMP_MINUS_IND \<Rightarrow> case_BUMP_MINUS_IND (param i) mem_len s
      | JUMP \<Rightarrow> case_JUMP (param i) s
      | JUMP_ZERO \<Rightarrow> case_JUMP_ZERO (param i) s
      | JUMP_NEGATIVE \<Rightarrow> case_JUMP_NEGATIVE (param i) s)"

text \<open>One iteration of the loop body: fetch \<^verbatim>\<open>pgm[pgm_pc]\<close> and run its case.\<close>

definition execute_step :: "HRMInstruction list \<Rightarrow> 8 word \<Rightarrow> exec_state \<Rightarrow> exec_state checked" where
  "execute_step pgm mem_len s =
     (case array_read pgm (uint (pgm_pc s)) of
        OutOfBounds \<Rightarrow> OutOfBounds
      | Ok i \<Rightarrow> dispatch i mem_len s)"

text \<open>
  The condition of the \<^verbatim>\<open>while\<close>. In \<^verbatim>\<open>pgm_pc <= ( pgm_len - 1 )\<close> the right side is an
  \<^verbatim>\<open>int\<close> and the left a \<^verbatim>\<open>uint16_t\<close>, so the right side is converted to unsigned: for
  \<open>pgm_len = 0\<close> it is 65535.
\<close>

definition loop_cond :: "8 word \<Rightarrow> exec_state \<Rightarrow> bool" where
  "loop_cond pgm_len s \<longleftrightarrow>
     inbox_empty s = 0 \<and>
     err s = ERR_NONE \<and>
     pgm_pc s \<le> (ucast pgm_len :: 16 word) - 1 \<and>
     pgm_num_instructions_executed s \<le> MAX_INSTRUCTIONS_ALLOWED"

text \<open>
  The loop. It need not terminate, so it is a partial function: \<open>None\<close> is a run that
  never leaves the loop, \<open>Some OutOfBounds\<close> a run that accesses an array outside its
  bounds, \<open>Some (Ok s)\<close> a run that leaves the loop in state \<open>s\<close>.
\<close>

partial_function (option) execute_loop ::
  "HRMInstruction list \<Rightarrow> 8 word \<Rightarrow> 8 word \<Rightarrow> exec_state \<Rightarrow> exec_state checked option" where
  "execute_loop pgm pgm_len mem_len s =
     (if loop_cond pgm_len s
      then (case execute_step pgm mem_len s of
              OutOfBounds \<Rightarrow> Some OutOfBounds
            | Ok s' \<Rightarrow> execute_loop pgm pgm_len mem_len s')
      else Some (Ok s))"

text \<open>
  \<open>execute\<close>: the locals are initialised, the file-level variables and the caller's
  memory are taken as they are. The value returned by the C function is the field
  \<open>err\<close> of the final state.
\<close>

definition initial_state :: "HRMVal list \<Rightarrow> HRMVal \<Rightarrow> HRMVal list \<Rightarrow> HRMVal list \<Rightarrow> exec_state" where
  "initial_state mem0 hands0 in_fifo0 out_fifo0 =
     \<lparr>hands = hands0, in_fifo = in_fifo0, out_fifo = out_fifo0, mem = mem0,
      pgm_num_instructions_executed = 0, pgm_pc = 0, inbox_empty = 0,
      in_fifo_val_idx = 0, out_fifo_num_vals = 0, err = ERR_NONE\<rparr>"

definition execute ::
  "HRMInstruction list \<Rightarrow> 8 word \<Rightarrow> HRMVal list \<Rightarrow> 8 word \<Rightarrow>
   HRMVal \<Rightarrow> HRMVal list \<Rightarrow> HRMVal list \<Rightarrow> exec_state checked option" where
  "execute pgm pgm_len mem0 mem_len hands0 in_fifo0 out_fifo0 =
     execute_loop pgm pgm_len mem_len (initial_state mem0 hands0 in_fifo0 out_fifo0)"

text \<open>
  The value the C function returns, when it returns: the local \<open>err\<close> of the final
  state. A run that never leaves the loop, or that goes outside an array, returns no
  value.
\<close>

definition returned :: "exec_state checked option \<Rightarrow> HRMErr option" where
  "returned r =
     (case r of
        None \<Rightarrow> None
      | Some OutOfBounds \<Rightarrow> None
      | Some (Ok f) \<Rightarrow> Some (err f))"

subsection \<open>The data of \<open>main\<close>\<close>

text \<open>
  The initial values of the file-level variables and the sample program, as \<open>main.c\<close>
  declares them. An aggregate without initialiser is zero: type \<open>EMPTY\<close>, payload 0. The
  fourth input value is written \<^verbatim>\<open>.val.c = 'D'\<close>, which is the number 68 behind the
  type flag \<open>NUM\<close>.
\<close>

definition hands_init :: HRMVal where
  "hands_init = \<lparr>type = EMPTY, val_n = 0\<rparr>"

definition in_fifo_init :: "HRMVal list" where
  "in_fifo_init =
     [\<lparr>type = NUM, val_n = 7\<rparr>, \<lparr>type = NUM, val_n = 0\<rparr>, \<lparr>type = NUM, val_n = 5\<rparr>,
      \<lparr>type = NUM, val_n = 68\<rparr>, \<lparr>type = NUM, val_n = 0\<rparr>, \<lparr>type = NUM, val_n = 0\<rparr>,
      \<lparr>type = NUM, val_n = 0\<rparr>, \<lparr>type = NUM, val_n = 0\<rparr>]"

definition out_fifo_init :: "HRMVal list" where
  "out_fifo_init =
     [\<lparr>type = EMPTY, val_n = 0\<rparr>, \<lparr>type = EMPTY, val_n = 0\<rparr>, \<lparr>type = EMPTY, val_n = 0\<rparr>,
      \<lparr>type = EMPTY, val_n = 0\<rparr>, \<lparr>type = EMPTY, val_n = 0\<rparr>, \<lparr>type = EMPTY, val_n = 0\<rparr>,
      \<lparr>type = EMPTY, val_n = 0\<rparr>, \<lparr>type = EMPTY, val_n = 0\<rparr>]"

definition mem_zero_preservation_initiative :: "HRMVal list" where
  "mem_zero_preservation_initiative =
     [\<lparr>type = EMPTY, val_n = 0\<rparr>, \<lparr>type = EMPTY, val_n = 0\<rparr>, \<lparr>type = EMPTY, val_n = 0\<rparr>,
      \<lparr>type = EMPTY, val_n = 0\<rparr>, \<lparr>type = EMPTY, val_n = 0\<rparr>, \<lparr>type = EMPTY, val_n = 0\<rparr>,
      \<lparr>type = EMPTY, val_n = 0\<rparr>, \<lparr>type = EMPTY, val_n = 0\<rparr>, \<lparr>type = EMPTY, val_n = 0\<rparr>]"

definition pgm_zero_preservation_initiative :: "HRMInstruction list" where
  "pgm_zero_preservation_initiative =
     [\<lparr>inst = INBOX, param = \<lparr>type = EMPTY, val_n = 0\<rparr>\<rparr>,
      \<lparr>inst = JUMP_ZERO, param = \<lparr>type = PROG_ADDR, val_n = 4\<rparr>\<rparr>,
      \<lparr>inst = JUMP, param = \<lparr>type = PROG_ADDR, val_n = 1\<rparr>\<rparr>,
      \<lparr>inst = OUTBOX, param = \<lparr>type = EMPTY, val_n = 0\<rparr>\<rparr>,
      \<lparr>inst = JUMP, param = \<lparr>type = PROG_ADDR, val_n = 1\<rparr>\<rparr>]"

definition main :: "exec_state checked option" where
  "main = execute pgm_zero_preservation_initiative 5 mem_zero_preservation_initiative 9
            hands_init in_fifo_init out_fifo_init"

subsection \<open>Runs, one iteration at a time\<close>

text \<open>
  \<open>run_reaches pgm pgm_len mem_len s t\<close>: the loop, started in \<open>s\<close>, is at the top of an
  iteration in state \<open>t\<close>. \<open>run_steps n\<close> runs exactly \<open>n\<close> iterations, and is \<open>None\<close> when
  the loop ends or goes outside an array before that; it computes a state that a run
  reaches.
\<close>

inductive run_reaches ::
  "HRMInstruction list \<Rightarrow> 8 word \<Rightarrow> 8 word \<Rightarrow> exec_state \<Rightarrow> exec_state \<Rightarrow> bool"
  for pgm :: "HRMInstruction list" and pgm_len :: "8 word" and mem_len :: "8 word" where
  here: "run_reaches pgm pgm_len mem_len s s"
| step: "loop_cond pgm_len s \<Longrightarrow> execute_step pgm mem_len s = Ok s' \<Longrightarrow>
         run_reaches pgm pgm_len mem_len s' t \<Longrightarrow> run_reaches pgm pgm_len mem_len s t"

fun run_steps ::
  "nat \<Rightarrow> HRMInstruction list \<Rightarrow> 8 word \<Rightarrow> 8 word \<Rightarrow> exec_state \<Rightarrow> exec_state option" where
  "run_steps 0 pgm pgm_len mem_len s = Some s"
| "run_steps (Suc n) pgm pgm_len mem_len s =
     (if loop_cond pgm_len s
      then (case execute_step pgm mem_len s of
              OutOfBounds \<Rightarrow> None
            | Ok s' \<Rightarrow> run_steps n pgm pgm_len mem_len s')
      else None)"

text \<open>The state of \<open>main\<close> after 29 iterations: all eight input values are read, five
  zeros are in the output, and the instruction at the program counter is \<open>INBOX\<close>.\<close>

definition main_state_at_last_inbox :: exec_state where
  "main_state_at_last_inbox =
   \<lparr>hands = \<lparr>type = NUM, val_n = 0\<rparr>,
     in_fifo =
       [\<lparr>type = NUM, val_n = 7\<rparr>, \<lparr>type = NUM, val_n = 0\<rparr>,
        \<lparr>type = NUM, val_n = 5\<rparr>, \<lparr>type = NUM, val_n = 68\<rparr>,
        \<lparr>type = NUM, val_n = 0\<rparr>, \<lparr>type = NUM, val_n = 0\<rparr>,
        \<lparr>type = NUM, val_n = 0\<rparr>, \<lparr>type = NUM, val_n = 0\<rparr>],
     out_fifo =
       [\<lparr>type = NUM, val_n = 0\<rparr>, \<lparr>type = NUM, val_n = 0\<rparr>,
        \<lparr>type = NUM, val_n = 0\<rparr>, \<lparr>type = NUM, val_n = 0\<rparr>,
        \<lparr>type = NUM, val_n = 0\<rparr>, \<lparr>type = EMPTY, val_n = 0\<rparr>,
        \<lparr>type = EMPTY, val_n = 0\<rparr>, \<lparr>type = EMPTY, val_n = 0\<rparr>],
     mem = mem_zero_preservation_initiative,
     pgm_num_instructions_executed = 29, pgm_pc = 0, inbox_empty = 0,
     in_fifo_val_idx = 8, out_fifo_num_vals = 5, err = ERR_NONE\<rparr>"

section \<open>Properties\<close>

lemmas case_defs =
  case_INBOX_def case_OUTBOX_def case_COPYFROM_def case_COPYFROM_IND_def
  case_COPYTO_def case_COPYTO_IND_def case_ADD_def case_ADD_IND_def
  case_SUB_def case_SUB_IND_def case_BUMP_PLUS_def case_BUMP_PLUS_IND_def
  case_BUMP_MINUS_def case_BUMP_MINUS_IND_def case_JUMP_def case_JUMP_ZERO_def
  case_JUMP_NEGATIVE_def

lemmas access_defs =
  array_read_def array_write_def read_indirect_def write_indirect_def
  verify_hands_not_empty_def verify_hands_hold_number_def
  verify_direct_addr_def verify_indirect_addr_def

lemmas run_defs = execute_step_def dispatch_def case_defs access_defs Let_def

subsection \<open>Signed and unsigned readings of a 16-bit word\<close>

lemma sint16_cases:
  "sint (n :: 16 word) = (if uint n < 32768 then uint n else uint n - 65536)"
proof -
  have n_lt: "uint n < 65536"
    using uint_lt2p [of n] by simp
  have n_ge: "0 \<le> uint n" by simp
  have "sint n = (uint n + 32768) mod 65536 - 32768"
    by (simp add: sint_uint signed_take_bit_eq_take_bit_shift take_bit_eq_mod)
  then show ?thesis
    using n_lt n_ge
    by (auto simp: mod_pos_pos_trivial minus_mod_int_eq mod_add_if_z split: if_splits)
qed

text \<open>The unsigned comparison against the length rejects exactly the values that, read
  signed, are negative or not below the length.\<close>

lemma ucast_le_sint_iff:
  "((ucast (l :: 8 word) :: 16 word) \<le> n) \<longleftrightarrow> \<not> (0 \<le> sint n \<and> sint n < uint l)"
proof -
  have ul: "uint (ucast l :: 16 word) = uint l"
    by (simp add: uint_up_ucast is_up)
  have l_lt: "uint l < 256"
    using uint_lt2p [of l] by simp
  have n_lt: "uint n < 65536"
    using uint_lt2p [of n] by simp
  have n_ge: "0 \<le> uint n" by simp
  show ?thesis
    unfolding word_le_def ul using l_lt n_lt n_ge by (auto simp: sint16_cases)
qed

subsection \<open>Direct addresses\<close>

text \<open>
  Claim C6. For every bank length \<open>mem_len\<close> and every parameter \<open>a\<close>,
  \<open>verify_direct_addr\<close> returns \<open>ERR_NONE\<close> if and only if \<open>a\<close> has type \<open>NUM\<close> and its
  value \<open>v\<close>, read as a signed number, satisfies \<open>0 \<le> v < mem_len\<close>. A parameter of any
  other type fails with \<open>ERR_INVALID_TYPE_FOR_DIRECT_ADDR\<close>; a number that is negative or
  not below the length fails with \<open>ERR_DIRECT_ADDR_OUT_OF_RANGE\<close> (a negative value is a
  large unsigned one in the comparison). The contents of the bank play no part.
\<close>

theorem verify_direct_addr_iff:
  "(verify_direct_addr a bank mem_len = ERR_NONE \<longleftrightarrow>
      type a = NUM \<and> 0 \<le> sint (val_n a) \<and> sint (val_n a) < uint mem_len) \<and>
   (type a \<noteq> NUM \<longrightarrow> verify_direct_addr a bank mem_len = ERR_INVALID_TYPE_FOR_DIRECT_ADDR) \<and>
   (type a = NUM \<and> (sint (val_n a) < 0 \<or> uint mem_len \<le> sint (val_n a)) \<longrightarrow>
      verify_direct_addr a bank mem_len = ERR_DIRECT_ADDR_OUT_OF_RANGE)"
  by (auto simp: verify_direct_addr_def ucast_le_sint_iff)

theorem verify_direct_addr_iff_witness:
  "verify_direct_addr \<lparr>type = NUM, val_n = 3\<rparr> [] 9 = ERR_NONE \<and>
   verify_direct_addr \<lparr>type = MEM_ADDR, val_n = 3\<rparr> [] 9 = ERR_INVALID_TYPE_FOR_DIRECT_ADDR \<and>
   verify_direct_addr \<lparr>type = NUM, val_n = 9\<rparr> [] 9 = ERR_DIRECT_ADDR_OUT_OF_RANGE \<and>
   verify_direct_addr \<lparr>type = NUM, val_n = - 1\<rparr> [] 9 = ERR_DIRECT_ADDR_OUT_OF_RANGE"
  using verify_direct_addr_iff [of "\<lparr>type = NUM, val_n = 3\<rparr>" "[]" 9]
    verify_direct_addr_iff [of "\<lparr>type = MEM_ADDR, val_n = 3\<rparr>" "[]" 9]
    verify_direct_addr_iff [of "\<lparr>type = NUM, val_n = 9\<rparr>" "[]" 9]
    verify_direct_addr_iff [of "\<lparr>type = NUM, val_n = - 1\<rparr>" "[]" 9]
  by simp

subsection \<open>Indirect addresses\<close>

text \<open>
  Claim C5. \<open>verify_indirect_addr\<close> works in stages. A parameter whose type is not
  \<open>NUM\<close> (the one type the code accepts for an address; a \<open>MEM_ADDR\<close> parameter is
  rejected like any other) fails with \<open>ERR_INVALID_TYPE_FOR_INDIRECT_ADDR\<close>. A number
  outside the bank fails with \<open>ERR_INDIRECT_ADDR_OUT_OF_RANGE\<close>. Both hold for every
  array \<open>bank\<close>, also the empty one in which any read would be out of bounds: the
  referenced cell is not read. Only for a number inside the bank is the cell
  \<open>bank[p.val.n]\<close> read, and the result is what \<open>verify_direct_addr\<close> says about that
  cell: \<open>ERR_NONE\<close> or one of its two failure codes.
\<close>

theorem verify_indirect_addr_stages:
  "(type p \<noteq> NUM \<longrightarrow>
      verify_indirect_addr p bank mem_len = Ok ERR_INVALID_TYPE_FOR_INDIRECT_ADDR) \<and>
   (type p = NUM \<and> (sint (val_n p) < 0 \<or> uint mem_len \<le> sint (val_n p)) \<longrightarrow>
      verify_indirect_addr p bank mem_len = Ok ERR_INDIRECT_ADDR_OUT_OF_RANGE) \<and>
   (type p = NUM \<and> 0 \<le> sint (val_n p) \<and> sint (val_n p) < uint mem_len \<and>
    uint mem_len \<le> int (length bank) \<longrightarrow>
      verify_indirect_addr p bank mem_len =
        Ok (verify_direct_addr (bank ! nat (sint (val_n p))) bank mem_len) \<and>
      verify_direct_addr (bank ! nat (sint (val_n p))) bank mem_len \<in>
        {ERR_NONE, ERR_INVALID_TYPE_FOR_DIRECT_ADDR, ERR_DIRECT_ADDR_OUT_OF_RANGE})"
  by (auto simp: verify_indirect_addr_def array_read_def ucast_le_sint_iff verify_direct_addr_def)

theorem verify_indirect_addr_stages_witness:
  "verify_indirect_addr \<lparr>type = MEM_ADDR, val_n = 0\<rparr> [] 9 = Ok ERR_INVALID_TYPE_FOR_INDIRECT_ADDR \<and>
   verify_indirect_addr \<lparr>type = NUM, val_n = 9\<rparr> [] 9 = Ok ERR_INDIRECT_ADDR_OUT_OF_RANGE \<and>
   verify_indirect_addr \<lparr>type = NUM, val_n = 1\<rparr>
     [\<lparr>type = NUM, val_n = 0\<rparr>, \<lparr>type = NUM, val_n = 7\<rparr>] 2 = Ok ERR_DIRECT_ADDR_OUT_OF_RANGE"
proof -
  have a: "type \<lparr>type = MEM_ADDR, val_n = 0 :: hrm_num\<rparr> \<noteq> NUM" by simp
  have b: "type \<lparr>type = NUM, val_n = 9 :: hrm_num\<rparr> = NUM \<and>
      (sint (val_n \<lparr>type = NUM, val_n = 9 :: hrm_num\<rparr>) < 0 \<or>
       uint (9 :: 8 word) \<le> sint (val_n \<lparr>type = NUM, val_n = 9 :: hrm_num\<rparr>))" by simp
  have c: "type \<lparr>type = NUM, val_n = 1 :: hrm_num\<rparr> = NUM \<and>
      0 \<le> sint (val_n \<lparr>type = NUM, val_n = 1 :: hrm_num\<rparr>) \<and>
      sint (val_n \<lparr>type = NUM, val_n = 1 :: hrm_num\<rparr>) < uint (2 :: 8 word) \<and>
      uint (2 :: 8 word) \<le> int (length [\<lparr>type = NUM, val_n = 0 :: hrm_num\<rparr>, \<lparr>type = NUM, val_n = 7\<rparr>])"
    by simp
  have d: "verify_direct_addr \<lparr>type = NUM, val_n = 7\<rparr>
      [\<lparr>type = NUM, val_n = 0\<rparr>, \<lparr>type = NUM, val_n = 7\<rparr>] 2 = ERR_DIRECT_ADDR_OUT_OF_RANGE"
    by (simp add: verify_direct_addr_def)
  from a b c d
    verify_indirect_addr_stages [of "\<lparr>type = MEM_ADDR, val_n = 0\<rparr>" "[]" 9]
    verify_indirect_addr_stages [of "\<lparr>type = NUM, val_n = 9\<rparr>" "[]" 9]
    verify_indirect_addr_stages [of "\<lparr>type = NUM, val_n = 1\<rparr>"
      "[\<lparr>type = NUM, val_n = 0\<rparr>, \<lparr>type = NUM, val_n = 7\<rparr>]" 2]
  show ?thesis by simp
qed

subsection \<open>The loop\<close>

lemma loop_exit: "\<not> loop_cond pgm_len s \<Longrightarrow> execute_loop pgm pgm_len mem_len s = Some (Ok s)"
  by (subst execute_loop.simps) simp

lemma loop_unfold:
  "loop_cond pgm_len s \<Longrightarrow> execute_step pgm mem_len s = Ok s' \<Longrightarrow>
   execute_loop pgm pgm_len mem_len s = execute_loop pgm pgm_len mem_len s'"
  by (subst execute_loop.simps) simp

lemma run_reaches_loop:
  "run_reaches pgm pgm_len mem_len s t \<Longrightarrow>
   execute_loop pgm pgm_len mem_len s = execute_loop pgm pgm_len mem_len t"
proof (induction rule: run_reaches.induct)
  case (here s)
  show ?case by simp
next
  case (step s s' t)
  have "execute_loop pgm pgm_len mem_len s = execute_loop pgm pgm_len mem_len s'"
    using step.hyps(1,2) by (subst execute_loop.simps) simp
  then show ?case using step.IH by simp
qed

lemma run_steps_reaches:
  "run_steps n pgm pgm_len mem_len s = Some t \<Longrightarrow> run_reaches pgm pgm_len mem_len s t"
proof (induction n arbitrary: s)
  case 0
  then show ?case by (simp add: run_reaches.here)
next
  case (Suc n)
  then show ?case
    by (auto split: if_splits checked.splits intro: run_reaches.step)
qed

lemma run_steps_numeral:
  "run_steps (numeral k) pgm pgm_len mem_len s =
     (if loop_cond pgm_len s
      then (case execute_step pgm mem_len s of
              OutOfBounds \<Rightarrow> None
            | Ok s' \<Rightarrow> run_steps (pred_numeral k) pgm pgm_len mem_len s')
      else None)"
  by (simp add: numeral_eq_Suc)

lemma run_steps_1:
  "run_steps 1 pgm pgm_len mem_len s =
     (if loop_cond pgm_len s
      then (case execute_step pgm mem_len s of OutOfBounds \<Rightarrow> None | Ok s' \<Rightarrow> Some s')
      else None)"
  unfolding One_nat_def by (simp split: checked.splits)

text \<open>A run that leaves the loop after \<open>n\<close> iterations is what \<open>execute\<close> returns.\<close>

lemma execute_by_steps:
  assumes "run_steps n pgm pgm_len mem_len (initial_state mem0 hands0 in_fifo0 out_fifo0) = Some f"
    and "\<not> loop_cond pgm_len f"
  shows "execute pgm pgm_len mem0 mem_len hands0 in_fifo0 out_fifo0 = Some (Ok f)"
  using run_reaches_loop [OF run_steps_reaches [OF assms(1)]] loop_exit [OF assms(2)]
  by (simp add: execute_def)

lemmas data_defs =
  initial_state_def hands_init_def in_fifo_init_def out_fifo_init_def
  loop_cond_def MAX_INSTRUCTIONS_ALLOWED_def NUM_INBOX_VALUES_def

text \<open>How a run ends: at a state that the loop condition refuses, after a step that set
  an error, and at an \<open>INBOX\<close> with the input used up.\<close>

lemma ended_run:
  assumes "run_reaches pgm pgm_len mem_len (initial_state mem0 hands0 in_fifo0 out_fifo0) t"
    and "\<not> loop_cond pgm_len t"
  shows "execute pgm pgm_len mem0 mem_len hands0 in_fifo0 out_fifo0 = Some (Ok t)"
  using run_reaches_loop [OF assms(1)] loop_exit [OF assms(2)]
  by (simp add: execute_def)

lemma error_run:
  assumes reach: "run_reaches pgm pgm_len mem_len (initial_state mem0 hands0 in_fifo0 out_fifo0) t"
    and cond: "loop_cond pgm_len t"
    and step: "execute_step pgm mem_len t = Ok u"
    and bad: "err u \<noteq> ERR_NONE"
  shows "execute pgm pgm_len mem0 mem_len hands0 in_fifo0 out_fifo0 = Some (Ok u)"
proof -
  have "\<not> loop_cond pgm_len u"
    using bad by (simp add: loop_cond_def)
  from loop_exit [OF this] loop_unfold [OF cond step] run_reaches_loop [OF reach]
  show ?thesis
    by (simp add: execute_def)
qed

lemma inbox_exhausted_run:
  assumes reach: "run_reaches pgm pgm_len mem_len (initial_state mem0 hands0 in_fifo0 out_fifo0) s"
    and cond: "loop_cond pgm_len s"
    and fetch: "array_read pgm (uint (pgm_pc s)) = Ok i"
    and inbox: "inst i = INBOX"
    and exhausted: "NUM_INBOX_VALUES \<le> uint (in_fifo_val_idx s)"
  shows "execute pgm pgm_len mem0 mem_len hands0 in_fifo0 out_fifo0 =
           Some (Ok (s\<lparr>inbox_empty := 1,
                        pgm_num_instructions_executed := pgm_num_instructions_executed s + 1\<rparr>))"
proof -
  let ?f = "s\<lparr>inbox_empty := 1,
              pgm_num_instructions_executed := pgm_num_instructions_executed s + 1\<rparr>"
  have st: "execute_step pgm mem_len s = Ok ?f"
    using fetch inbox exhausted by (simp add: execute_step_def dispatch_def case_INBOX_def)
  have "\<not> loop_cond pgm_len ?f"
    by (simp add: loop_cond_def)
  from loop_exit [OF this] loop_unfold [OF cond st] run_reaches_loop [OF reach]
  show ?thesis
    by (simp add: execute_def)
qed

text \<open>The sample program of \<open>main\<close> comes to its last \<open>INBOX\<close> after 29 iterations, and
  returns after the 30th.\<close>

lemma main_reaches_last_inbox:
  "run_steps 29 pgm_zero_preservation_initiative 5 9
     (initial_state mem_zero_preservation_initiative hands_init in_fifo_init out_fifo_init) = Some main_state_at_last_inbox"
  by (simp add: run_steps_numeral run_steps_1 main_state_at_last_inbox_def pgm_zero_preservation_initiative_def initial_state_def mem_zero_preservation_initiative_def
     hands_init_def in_fifo_init_def out_fifo_init_def loop_cond_def MAX_INSTRUCTIONS_ALLOWED_def NUM_INBOX_VALUES_def run_defs)

lemma main_returns:
  "main = Some (Ok (main_state_at_last_inbox
     \<lparr>inbox_empty := 1, pgm_num_instructions_executed := 30\<rparr>))"
proof -
  have reach: "run_reaches pgm_zero_preservation_initiative 5 9
     (initial_state mem_zero_preservation_initiative hands_init in_fifo_init out_fifo_init)
     main_state_at_last_inbox"
    by (rule run_steps_reaches [OF main_reaches_last_inbox])
  have cond: "loop_cond 5 main_state_at_last_inbox"
    by (simp add: loop_cond_def main_state_at_last_inbox_def MAX_INSTRUCTIONS_ALLOWED_def)
  have fetch: "array_read pgm_zero_preservation_initiative (uint (pgm_pc main_state_at_last_inbox)) =
      Ok \<lparr>inst = INBOX, param = \<lparr>type = EMPTY, val_n = 0\<rparr>\<rparr>"
    by (simp add: array_read_def pgm_zero_preservation_initiative_def main_state_at_last_inbox_def)
  have inbox: "inst \<lparr>inst = INBOX, param = \<lparr>type = EMPTY, val_n = 0 :: hrm_num\<rparr>\<rparr> = INBOX"
    by simp
  have exhausted: "NUM_INBOX_VALUES \<le> uint (in_fifo_val_idx main_state_at_last_inbox)"
    by (simp add: NUM_INBOX_VALUES_def main_state_at_last_inbox_def)
  have count: "pgm_num_instructions_executed main_state_at_last_inbox + 1 = 30"
    by (simp add: main_state_at_last_inbox_def)
  from inbox_exhausted_run [OF reach cond fetch inbox exhausted]
  show ?thesis
    by (simp add: main_def count)
qed

text \<open>A set of states that the loop condition accepts and that one iteration never
  leaves: a run started in it does not return.\<close>

lemma loop_diverges:
  assumes inv: "\<And>s. I s \<Longrightarrow> loop_cond pgm_len s \<and> (\<exists>s'. execute_step pgm mem_len s = Ok s' \<and> I s')"
    and start: "I s"
  shows "execute_loop pgm pgm_len mem_len s = None"
proof (rule ccontr)
  assume "execute_loop pgm pgm_len mem_len s \<noteq> None"
  then obtain r where r: "execute_loop pgm pgm_len mem_len s = Some r" by auto
  have "\<not> (pgm = pgm \<and> pgm_len = pgm_len \<and> mem_len = mem_len \<and> I s)"
  proof (rule execute_loop.raw_induct
      [where P = "\<lambda>a b c s r. \<not> (a = pgm \<and> b = pgm_len \<and> c = mem_len \<and> I s)", OF _ r],
      goal_cases)
    case (1 loop a b c s r)
    show ?case
    proof
      assume h: "a = pgm \<and> b = pgm_len \<and> c = mem_len \<and> I s"
      with inv obtain s' where c: "loop_cond pgm_len s" and st: "execute_step pgm mem_len s = Ok s'"
        and i': "I s'" by blast
      from 1(2) h c st have "loop pgm pgm_len mem_len s' = Some r" by simp
      from 1(1) [OF this] i' show False by simp
    qed
  qed
  with start show False by simp
qed

subsection \<open>Conditional jumps\<close>

text \<open>
  Claim C8. At \<open>JUMP_ZERO\<close> and \<open>JUMP_NEGATIVE\<close>: when the hands do not hold a \<open>NUM\<close>
  the run ends there, returning the error code 1 (\<open>ERR_BAD_PARAM_TYPE\<close>, the code the
  source sets for a bad jump condition). When they hold a \<open>NUM\<close>, the program counter
  becomes the target (the one-based parameter minus 1) if the number is zero,
  respectively negative, and the next index otherwise.
\<close>

theorem conditional_jump_step:
  assumes "loop_cond pgm_len s"
    and "array_read pgm (uint (pgm_pc s)) = Ok i"
  shows
    "((inst i = JUMP_ZERO \<or> inst i = JUMP_NEGATIVE) \<and> type (hands s) \<noteq> NUM \<longrightarrow>
        execute_loop pgm pgm_len mem_len s =
          Some (Ok (s\<lparr>err := ERR_BAD_PARAM_TYPE,
                       pgm_num_instructions_executed := pgm_num_instructions_executed s + 1\<rparr>))) \<and>
     (inst i = JUMP_ZERO \<and> type (hands s) = NUM \<and> val_n (hands s) = 0 \<longrightarrow>
        execute_step pgm mem_len s =
          Ok (s\<lparr>pgm_pc := val_n (param i) - 1,
                pgm_num_instructions_executed := pgm_num_instructions_executed s + 1\<rparr>)) \<and>
     (inst i = JUMP_ZERO \<and> type (hands s) = NUM \<and> val_n (hands s) \<noteq> 0 \<longrightarrow>
        execute_step pgm mem_len s =
          Ok (s\<lparr>pgm_pc := pgm_pc s + 1,
                pgm_num_instructions_executed := pgm_num_instructions_executed s + 1\<rparr>)) \<and>
     (inst i = JUMP_NEGATIVE \<and> type (hands s) = NUM \<and> sint (val_n (hands s)) < 0 \<longrightarrow>
        execute_step pgm mem_len s =
          Ok (s\<lparr>pgm_pc := val_n (param i) - 1,
                pgm_num_instructions_executed := pgm_num_instructions_executed s + 1\<rparr>)) \<and>
     (inst i = JUMP_NEGATIVE \<and> type (hands s) = NUM \<and> 0 \<le> sint (val_n (hands s)) \<longrightarrow>
        execute_step pgm mem_len s =
          Ok (s\<lparr>pgm_pc := pgm_pc s + 1,
                pgm_num_instructions_executed := pgm_num_instructions_executed s + 1\<rparr>))"
proof -
  let ?e = "s\<lparr>err := ERR_BAD_PARAM_TYPE,
              pgm_num_instructions_executed := pgm_num_instructions_executed s + 1\<rparr>"
  have halt: "execute_loop pgm pgm_len mem_len s = Some (Ok ?e)"
    if "inst i = JUMP_ZERO \<or> inst i = JUMP_NEGATIVE" and "type (hands s) \<noteq> NUM"
  proof -
    have st: "execute_step pgm mem_len s = Ok ?e"
      using that assms(2)
      by (auto simp: execute_step_def dispatch_def case_JUMP_ZERO_def case_JUMP_NEGATIVE_def Let_def)
    have "\<not> loop_cond pgm_len ?e"
      by (simp add: loop_cond_def)
    from loop_exit [OF this] loop_unfold [OF assms(1) st] show ?thesis
      by simp
  qed
  have steps:
    "inst i = JUMP_ZERO \<and> type (hands s) = NUM \<and> val_n (hands s) = 0 \<longrightarrow>
        execute_step pgm mem_len s =
          Ok (s\<lparr>pgm_pc := val_n (param i) - 1,
                pgm_num_instructions_executed := pgm_num_instructions_executed s + 1\<rparr>)"
    "inst i = JUMP_ZERO \<and> type (hands s) = NUM \<and> val_n (hands s) \<noteq> 0 \<longrightarrow>
        execute_step pgm mem_len s =
          Ok (s\<lparr>pgm_pc := pgm_pc s + 1,
                pgm_num_instructions_executed := pgm_num_instructions_executed s + 1\<rparr>)"
    "inst i = JUMP_NEGATIVE \<and> type (hands s) = NUM \<and> sint (val_n (hands s)) < 0 \<longrightarrow>
        execute_step pgm mem_len s =
          Ok (s\<lparr>pgm_pc := val_n (param i) - 1,
                pgm_num_instructions_executed := pgm_num_instructions_executed s + 1\<rparr>)"
    "inst i = JUMP_NEGATIVE \<and> type (hands s) = NUM \<and> 0 \<le> sint (val_n (hands s)) \<longrightarrow>
        execute_step pgm mem_len s =
          Ok (s\<lparr>pgm_pc := pgm_pc s + 1,
                pgm_num_instructions_executed := pgm_num_instructions_executed s + 1\<rparr>)"
    using assms(2)
    by (simp_all add: execute_step_def dispatch_def case_JUMP_ZERO_def case_JUMP_NEGATIVE_def Let_def)
  from halt steps show ?thesis by blast
qed

theorem conditional_jump_step_witness:
  "execute_loop [\<lparr>inst = JUMP_ZERO, param = \<lparr>type = PROG_ADDR, val_n = 4\<rparr>\<rparr>] 1 0
     (initial_state [] \<lparr>type = CHAR', val_n = 0\<rparr> [] []) =
     Some (Ok ((initial_state [] \<lparr>type = CHAR', val_n = 0\<rparr> [] [])
       \<lparr>err := ERR_BAD_PARAM_TYPE, pgm_num_instructions_executed := 1\<rparr>)) \<and>
   execute_step [\<lparr>inst = JUMP_ZERO, param = \<lparr>type = PROG_ADDR, val_n = 4\<rparr>\<rparr>] 0
     (initial_state [] \<lparr>type = NUM, val_n = 0\<rparr> [] []) =
     Ok ((initial_state [] \<lparr>type = NUM, val_n = 0\<rparr> [] [])
       \<lparr>pgm_pc := 3, pgm_num_instructions_executed := 1\<rparr>) \<and>
   execute_step [\<lparr>inst = JUMP_ZERO, param = \<lparr>type = PROG_ADDR, val_n = 4\<rparr>\<rparr>] 0
     (initial_state [] \<lparr>type = NUM, val_n = 7\<rparr> [] []) =
     Ok ((initial_state [] \<lparr>type = NUM, val_n = 7\<rparr> [] [])
       \<lparr>pgm_pc := 1, pgm_num_instructions_executed := 1\<rparr>) \<and>
   execute_step [\<lparr>inst = JUMP_NEGATIVE, param = \<lparr>type = PROG_ADDR, val_n = 4\<rparr>\<rparr>] 0
     (initial_state [] \<lparr>type = NUM, val_n = - 7\<rparr> [] []) =
     Ok ((initial_state [] \<lparr>type = NUM, val_n = - 7\<rparr> [] [])
       \<lparr>pgm_pc := 3, pgm_num_instructions_executed := 1\<rparr>) \<and>
   execute_step [\<lparr>inst = JUMP_NEGATIVE, param = \<lparr>type = PROG_ADDR, val_n = 4\<rparr>\<rparr>] 0
     (initial_state [] \<lparr>type = NUM, val_n = 7\<rparr> [] []) =
     Ok ((initial_state [] \<lparr>type = NUM, val_n = 7\<rparr> [] [])
       \<lparr>pgm_pc := 1, pgm_num_instructions_executed := 1\<rparr>)"
proof -
  have c: "loop_cond 1 (initial_state [] h [] [])" for h
    by (simp add: loop_cond_def initial_state_def MAX_INSTRUCTIONS_ALLOWED_def)
  have r: "array_read [j] (uint (pgm_pc (initial_state [] h [] []))) = Ok j" for j :: HRMInstruction and h
    by (simp add: array_read_def initial_state_def)
  have h: "hands (initial_state [] h [] []) = h"
      "pgm_pc (initial_state [] h [] []) = 0"
      "pgm_num_instructions_executed (initial_state [] h [] []) = 0" for h
    by (simp_all add: initial_state_def)
  from conditional_jump_step [OF c [of "\<lparr>type = CHAR', val_n = 0\<rparr>"]
        r [of "\<lparr>inst = JUMP_ZERO, param = \<lparr>type = PROG_ADDR, val_n = 4\<rparr>\<rparr>"], where mem_len = 0]
    conditional_jump_step [OF c [of "\<lparr>type = NUM, val_n = 0\<rparr>"]
        r [of "\<lparr>inst = JUMP_ZERO, param = \<lparr>type = PROG_ADDR, val_n = 4\<rparr>\<rparr>"], where mem_len = 0]
    conditional_jump_step [OF c [of "\<lparr>type = NUM, val_n = 7\<rparr>"]
        r [of "\<lparr>inst = JUMP_ZERO, param = \<lparr>type = PROG_ADDR, val_n = 4\<rparr>\<rparr>"], where mem_len = 0]
    conditional_jump_step [OF c [of "\<lparr>type = NUM, val_n = - 7\<rparr>"]
        r [of "\<lparr>inst = JUMP_NEGATIVE, param = \<lparr>type = PROG_ADDR, val_n = 4\<rparr>\<rparr>"], where mem_len = 0]
    conditional_jump_step [OF c [of "\<lparr>type = NUM, val_n = 7\<rparr>"]
        r [of "\<lparr>inst = JUMP_NEGATIVE, param = \<lparr>type = PROG_ADDR, val_n = 4\<rparr>\<rparr>"], where mem_len = 0]
  show ?thesis
    by (simp add: h)
qed

subsection \<open>What a step leaves unchanged\<close>

lemma case_INBOX_frame:
  "case_INBOX s = Ok s' \<Longrightarrow>
   mem s' = mem s \<and> out_fifo s' = out_fifo s \<and> out_fifo_num_vals s' = out_fifo_num_vals s \<and>
   in_fifo s' = in_fifo s \<and> err s' = err s"
  by (auto simp: case_INBOX_def split: if_splits checked.splits)

lemma case_COPYFROM_frame:
  "case_COPYFROM p l s = Ok s' \<Longrightarrow> s' = s\<lparr>hands := hands s', err := err s'\<rparr>"
  by (auto simp: case_COPYFROM_def Let_def split: if_splits checked.splits)

lemma case_COPYFROM_IND_frame:
  "case_COPYFROM_IND p l s = Ok s' \<Longrightarrow> s' = s\<lparr>hands := hands s', err := err s'\<rparr>"
  by (auto simp: case_COPYFROM_IND_def Let_def split: if_splits checked.splits)

lemma case_ADD_frame:
  "case_ADD p l s = Ok s' \<Longrightarrow> s' = s\<lparr>hands := hands s', err := err s'\<rparr>"
  by (auto simp: case_ADD_def Let_def split: if_splits checked.splits)

lemma case_ADD_IND_frame:
  "case_ADD_IND p l s = Ok s' \<Longrightarrow> s' = s\<lparr>hands := hands s', err := err s'\<rparr>"
  by (auto simp: case_ADD_IND_def Let_def split: if_splits checked.splits)

lemma case_SUB_frame:
  "case_SUB p l s = Ok s' \<Longrightarrow> s' = s\<lparr>hands := hands s', err := err s'\<rparr>"
  by (auto simp: case_SUB_def Let_def split: if_splits checked.splits)

lemma case_SUB_IND_frame:
  "case_SUB_IND p l s = Ok s' \<Longrightarrow> s' = s\<lparr>hands := hands s', err := err s'\<rparr>"
  by (auto simp: case_SUB_IND_def Let_def split: if_splits checked.splits)

lemma frame_fields:
  "s' = s\<lparr>hands := h, err := e\<rparr> \<Longrightarrow>
   mem s' = mem s \<and> out_fifo s' = out_fifo s \<and> out_fifo_num_vals s' = out_fifo_num_vals s \<and>
   in_fifo s' = in_fifo s"
  by simp

text \<open>
  Claim C10. A step of \<open>INBOX\<close>, \<open>COPYFROM\<close>, \<open>COPYFROM_IND\<close>, \<open>ADD\<close>, \<open>ADD_IND\<close>, \<open>SUB\<close> or
  \<open>SUB_IND\<close> leaves the memory bank as it was, and the input and output arrays and
  the output count as well. For the six instructions other than \<open>INBOX\<close> nothing but
  the hands and the error code is written; \<open>INBOX\<close> writes the hands, the input cursor
  and the counters of the loop. This holds for every such step, so in particular for
  the successful ones.
\<close>

theorem reading_steps_leave_memory:
  assumes fetch: "array_read pgm (uint (pgm_pc s)) = Ok i"
    and op: "inst i \<in> {INBOX, COPYFROM, COPYFROM_IND, ADD, ADD_IND, SUB, SUB_IND}"
    and step: "execute_step pgm mem_len s = Ok s'"
  shows "mem s' = mem s \<and> out_fifo s' = out_fifo s \<and>
         out_fifo_num_vals s' = out_fifo_num_vals s \<and> in_fifo s' = in_fifo s \<and>
         (inst i \<noteq> INBOX \<longrightarrow> s' = s\<lparr>hands := hands s', err := err s'\<rparr>)"
proof -
  from step fetch have d: "dispatch i mem_len s = Ok s'"
    by (simp add: execute_step_def)
  from op consider "inst i = INBOX" | "inst i = COPYFROM" | "inst i = COPYFROM_IND"
    | "inst i = ADD" | "inst i = ADD_IND" | "inst i = SUB" | "inst i = SUB_IND"
    by auto
  then show ?thesis
  proof cases
    case 1
    with d have "case_INBOX s = Ok s'" by (simp add: dispatch_def)
    from case_INBOX_frame [OF this] 1 show ?thesis by simp
  next
    case 2
    with d have "case_COPYFROM (param i) mem_len s = Ok s'" by (simp add: dispatch_def)
    from case_COPYFROM_frame [OF this] frame_fields [OF case_COPYFROM_frame [OF this]]
    show ?thesis by simp
  next
    case 3
    with d have "case_COPYFROM_IND (param i) mem_len s = Ok s'" by (simp add: dispatch_def)
    from case_COPYFROM_IND_frame [OF this] frame_fields [OF case_COPYFROM_IND_frame [OF this]]
    show ?thesis by simp
  next
    case 4
    with d have "case_ADD (param i) mem_len s = Ok s'" by (simp add: dispatch_def)
    from case_ADD_frame [OF this] frame_fields [OF case_ADD_frame [OF this]]
    show ?thesis by simp
  next
    case 5
    with d have "case_ADD_IND (param i) mem_len s = Ok s'" by (simp add: dispatch_def)
    from case_ADD_IND_frame [OF this] frame_fields [OF case_ADD_IND_frame [OF this]]
    show ?thesis by simp
  next
    case 6
    with d have "case_SUB (param i) mem_len s = Ok s'" by (simp add: dispatch_def)
    from case_SUB_frame [OF this] frame_fields [OF case_SUB_frame [OF this]]
    show ?thesis by simp
  next
    case 7
    with d have "case_SUB_IND (param i) mem_len s = Ok s'" by (simp add: dispatch_def)
    from case_SUB_IND_frame [OF this] frame_fields [OF case_SUB_IND_frame [OF this]]
    show ?thesis by simp
  qed
qed

theorem reading_steps_leave_memory_witness:
  "execute_step [\<lparr>inst = COPYFROM, param = \<lparr>type = NUM, val_n = 0\<rparr>\<rparr>] 1
     (initial_state [\<lparr>type = NUM, val_n = 5\<rparr>] \<lparr>type = EMPTY, val_n = 0\<rparr> [] []) =
     Ok ((initial_state [\<lparr>type = NUM, val_n = 5\<rparr>] \<lparr>type = EMPTY, val_n = 0\<rparr> [] [])
          \<lparr>hands := \<lparr>type = NUM, val_n = 5\<rparr>\<rparr>) \<and>
   mem ((initial_state [\<lparr>type = NUM, val_n = 5\<rparr>] \<lparr>type = EMPTY, val_n = 0\<rparr> [] [])
          \<lparr>hands := \<lparr>type = NUM, val_n = 5\<rparr>\<rparr>) = [\<lparr>type = NUM, val_n = 5\<rparr>] \<and>
   execute_step [\<lparr>inst = ADD, param = \<lparr>type = NUM, val_n = 0\<rparr>\<rparr>] 1
     (initial_state [\<lparr>type = NUM, val_n = 9\<rparr>] \<lparr>type = NUM, val_n = 990\<rparr> [] []) =
     Ok ((initial_state [\<lparr>type = NUM, val_n = 9\<rparr>] \<lparr>type = NUM, val_n = 990\<rparr> [] [])
          \<lparr>hands := \<lparr>type = NUM, val_n = 999\<rparr>\<rparr>) \<and>
   mem ((initial_state [\<lparr>type = NUM, val_n = 9\<rparr>] \<lparr>type = NUM, val_n = 990\<rparr> [] [])
          \<lparr>hands := \<lparr>type = NUM, val_n = 999\<rparr>\<rparr>) = [\<lparr>type = NUM, val_n = 9\<rparr>]"
proof -
  let ?s = "initial_state [\<lparr>type = NUM, val_n = 5\<rparr>] \<lparr>type = EMPTY, val_n = 0\<rparr> [] []"
  let ?s' = "?s\<lparr>hands := \<lparr>type = NUM, val_n = 5\<rparr>\<rparr>"
  let ?t = "initial_state [\<lparr>type = NUM, val_n = 9\<rparr>] \<lparr>type = NUM, val_n = 990\<rparr> [] []"
  let ?t' = "?t\<lparr>hands := \<lparr>type = NUM, val_n = 999\<rparr>\<rparr>"
  have fetch:
    "array_read [\<lparr>inst = COPYFROM, param = \<lparr>type = NUM, val_n = 0\<rparr>\<rparr>] (uint (pgm_pc ?s)) =
       Ok \<lparr>inst = COPYFROM, param = \<lparr>type = NUM, val_n = 0\<rparr>\<rparr>"
    "array_read [\<lparr>inst = ADD, param = \<lparr>type = NUM, val_n = 0\<rparr>\<rparr>] (uint (pgm_pc ?t)) =
       Ok \<lparr>inst = ADD, param = \<lparr>type = NUM, val_n = 0\<rparr>\<rparr>"
    by (simp_all add: array_read_def initial_state_def)
  have op:
    "inst \<lparr>inst = COPYFROM, param = \<lparr>type = NUM, val_n = 0 :: hrm_num\<rparr>\<rparr> \<in>
       {INBOX, COPYFROM, COPYFROM_IND, ADD, ADD_IND, SUB, SUB_IND}"
    "inst \<lparr>inst = ADD, param = \<lparr>type = NUM, val_n = 0 :: hrm_num\<rparr>\<rparr> \<in>
       {INBOX, COPYFROM, COPYFROM_IND, ADD, ADD_IND, SUB, SUB_IND}"
    by simp_all
  have step1: "execute_step [\<lparr>inst = COPYFROM, param = \<lparr>type = NUM, val_n = 0\<rparr>\<rparr>] 1 ?s = Ok ?s'"
    by (simp add: initial_state_def run_defs)
  have step2: "execute_step [\<lparr>inst = ADD, param = \<lparr>type = NUM, val_n = 0\<rparr>\<rparr>] 1 ?t = Ok ?t'"
    by (simp add: initial_state_def run_defs)
  have h: "mem ?s = [\<lparr>type = NUM, val_n = 5\<rparr>]" "mem ?t = [\<lparr>type = NUM, val_n = 9\<rparr>]"
    by (simp_all add: initial_state_def)
  from reading_steps_leave_memory [OF fetch(1) op(1) step1]
    reading_steps_leave_memory [OF fetch(2) op(2) step2] step1 step2 h
  show ?thesis by simp
qed

subsection \<open>The state after a failing step\<close>

lemma case_INBOX_error:
  "case_INBOX s = Ok s' \<Longrightarrow> err s = ERR_NONE \<Longrightarrow> err s' \<noteq> ERR_NONE \<Longrightarrow>
   s' = s\<lparr>hands := hands s', pgm_num_instructions_executed := pgm_num_instructions_executed s',
             err := err s'\<rparr> \<and> hands s' = hands s"
  by (auto simp: case_INBOX_def Let_def split: if_splits checked.splits)

lemma case_OUTBOX_error:
  "case_OUTBOX s = Ok s' \<Longrightarrow> err s = ERR_NONE \<Longrightarrow> err s' \<noteq> ERR_NONE \<Longrightarrow>
   s' = s\<lparr>hands := hands s', pgm_num_instructions_executed := pgm_num_instructions_executed s',
             err := err s'\<rparr> \<and> hands s' = hands s"
  by (auto simp: case_OUTBOX_def Let_def split: if_splits checked.splits)

lemma case_COPYFROM_error:
  "case_COPYFROM p l s = Ok s' \<Longrightarrow> err s = ERR_NONE \<Longrightarrow> err s' \<noteq> ERR_NONE \<Longrightarrow>
   s' = s\<lparr>hands := hands s', pgm_num_instructions_executed := pgm_num_instructions_executed s',
             err := err s'\<rparr> \<and> hands s' = hands s"
  by (auto simp: case_COPYFROM_def Let_def split: if_splits checked.splits)

lemma case_COPYFROM_IND_error:
  "case_COPYFROM_IND p l s = Ok s' \<Longrightarrow> err s = ERR_NONE \<Longrightarrow> err s' \<noteq> ERR_NONE \<Longrightarrow>
   s' = s\<lparr>hands := hands s', pgm_num_instructions_executed := pgm_num_instructions_executed s',
             err := err s'\<rparr> \<and> hands s' = hands s"
  by (auto simp: case_COPYFROM_IND_def Let_def split: if_splits checked.splits)

lemma case_COPYTO_error:
  "case_COPYTO p l s = Ok s' \<Longrightarrow> err s = ERR_NONE \<Longrightarrow> err s' \<noteq> ERR_NONE \<Longrightarrow>
   s' = s\<lparr>hands := hands s', pgm_num_instructions_executed := pgm_num_instructions_executed s',
             err := err s'\<rparr> \<and> hands s' = hands s"
  by (auto simp: case_COPYTO_def Let_def split: if_splits checked.splits)

lemma case_COPYTO_IND_error:
  "case_COPYTO_IND p l s = Ok s' \<Longrightarrow> err s = ERR_NONE \<Longrightarrow> err s' \<noteq> ERR_NONE \<Longrightarrow>
   s' = s\<lparr>hands := hands s', pgm_num_instructions_executed := pgm_num_instructions_executed s',
             err := err s'\<rparr> \<and> hands s' = hands s"
  by (auto simp: case_COPYTO_IND_def Let_def split: if_splits checked.splits)

lemma case_BUMP_PLUS_error:
  "case_BUMP_PLUS p l s = Ok s' \<Longrightarrow> err s = ERR_NONE \<Longrightarrow> err s' \<noteq> ERR_NONE \<Longrightarrow>
   s' = s\<lparr>hands := hands s', pgm_num_instructions_executed := pgm_num_instructions_executed s',
             err := err s'\<rparr> \<and> hands s' = hands s"
  by (auto simp: case_BUMP_PLUS_def Let_def split: if_splits checked.splits)

lemma case_BUMP_PLUS_IND_error:
  "case_BUMP_PLUS_IND p l s = Ok s' \<Longrightarrow> err s = ERR_NONE \<Longrightarrow> err s' \<noteq> ERR_NONE \<Longrightarrow>
   s' = s\<lparr>hands := hands s', pgm_num_instructions_executed := pgm_num_instructions_executed s',
             err := err s'\<rparr> \<and> hands s' = hands s"
  by (auto simp: case_BUMP_PLUS_IND_def Let_def split: if_splits checked.splits)

lemma case_BUMP_MINUS_error:
  "case_BUMP_MINUS p l s = Ok s' \<Longrightarrow> err s = ERR_NONE \<Longrightarrow> err s' \<noteq> ERR_NONE \<Longrightarrow>
   s' = s\<lparr>hands := hands s', pgm_num_instructions_executed := pgm_num_instructions_executed s',
             err := err s'\<rparr> \<and> hands s' = hands s"
  by (auto simp: case_BUMP_MINUS_def Let_def split: if_splits checked.splits)

lemma case_BUMP_MINUS_IND_error:
  "case_BUMP_MINUS_IND p l s = Ok s' \<Longrightarrow> err s = ERR_NONE \<Longrightarrow> err s' \<noteq> ERR_NONE \<Longrightarrow>
   s' = s\<lparr>hands := hands s', pgm_num_instructions_executed := pgm_num_instructions_executed s',
             err := err s'\<rparr> \<and> hands s' = hands s"
  by (auto simp: case_BUMP_MINUS_IND_def Let_def split: if_splits checked.splits)

lemma case_JUMP_error:
  "case_JUMP p s = Ok s' \<Longrightarrow> err s = ERR_NONE \<Longrightarrow> err s' \<noteq> ERR_NONE \<Longrightarrow>
   s' = s\<lparr>hands := hands s', pgm_num_instructions_executed := pgm_num_instructions_executed s',
             err := err s'\<rparr> \<and> hands s' = hands s"
  by (auto simp: case_JUMP_def Let_def split: if_splits checked.splits)

lemma case_JUMP_ZERO_error:
  "case_JUMP_ZERO p s = Ok s' \<Longrightarrow> err s = ERR_NONE \<Longrightarrow> err s' \<noteq> ERR_NONE \<Longrightarrow>
   s' = s\<lparr>hands := hands s', pgm_num_instructions_executed := pgm_num_instructions_executed s',
             err := err s'\<rparr> \<and> hands s' = hands s"
  by (auto simp: case_JUMP_ZERO_def Let_def split: if_splits checked.splits)

lemma case_JUMP_NEGATIVE_error:
  "case_JUMP_NEGATIVE p s = Ok s' \<Longrightarrow> err s = ERR_NONE \<Longrightarrow> err s' \<noteq> ERR_NONE \<Longrightarrow>
   s' = s\<lparr>hands := hands s', pgm_num_instructions_executed := pgm_num_instructions_executed s',
             err := err s'\<rparr> \<and> hands s' = hands s"
  by (auto simp: case_JUMP_NEGATIVE_def Let_def split: if_splits checked.splits)

lemma case_ADD_error:
  "case_ADD p l s = Ok s' \<Longrightarrow> err s = ERR_NONE \<Longrightarrow> err s' \<noteq> ERR_NONE \<Longrightarrow>
   s' = s\<lparr>hands := hands s', pgm_num_instructions_executed := pgm_num_instructions_executed s',
             err := err s'\<rparr> \<and>
   type (hands s') = type (hands s) \<and>
   (err s' \<noteq> ERR_OVERFLOW \<and> err s' \<noteq> ERR_UNDERFLOW \<longrightarrow> hands s' = hands s)"
  by (auto simp: case_ADD_def Let_def split: if_splits checked.splits)

lemma case_ADD_IND_error:
  "case_ADD_IND p l s = Ok s' \<Longrightarrow> err s = ERR_NONE \<Longrightarrow> err s' \<noteq> ERR_NONE \<Longrightarrow>
   s' = s\<lparr>hands := hands s', pgm_num_instructions_executed := pgm_num_instructions_executed s',
             err := err s'\<rparr> \<and>
   type (hands s') = type (hands s) \<and>
   (err s' \<noteq> ERR_OVERFLOW \<and> err s' \<noteq> ERR_UNDERFLOW \<longrightarrow> hands s' = hands s)"
  by (auto simp: case_ADD_IND_def Let_def split: if_splits checked.splits)

lemma case_SUB_error:
  "case_SUB p l s = Ok s' \<Longrightarrow> err s = ERR_NONE \<Longrightarrow> err s' \<noteq> ERR_NONE \<Longrightarrow>
   s' = s\<lparr>hands := hands s', pgm_num_instructions_executed := pgm_num_instructions_executed s',
             err := err s'\<rparr> \<and>
   type (hands s') = type (hands s) \<and>
   (err s' \<noteq> ERR_OVERFLOW \<and> err s' \<noteq> ERR_UNDERFLOW \<longrightarrow> hands s' = hands s)"
  by (auto simp: case_SUB_def Let_def split: if_splits checked.splits)

lemma case_SUB_IND_error:
  "case_SUB_IND p l s = Ok s' \<Longrightarrow> err s = ERR_NONE \<Longrightarrow> err s' \<noteq> ERR_NONE \<Longrightarrow>
   s' = s\<lparr>hands := hands s', pgm_num_instructions_executed := pgm_num_instructions_executed s',
             err := err s'\<rparr> \<and>
   type (hands s') = type (hands s) \<and>
   (err s' \<noteq> ERR_OVERFLOW \<and> err s' \<noteq> ERR_UNDERFLOW \<longrightarrow> hands s' = hands s)"
  by (auto simp: case_SUB_IND_def Let_def split: if_splits checked.splits)

lemma case_ADD_value:
  "case_ADD p l s = Ok s' \<Longrightarrow>
   err s' = ERR_OVERFLOW \<or> err s' = ERR_UNDERFLOW \<longrightarrow>
     (\<exists>v. array_read (mem s) (sint (val_n p)) = Ok v \<and>
          hands s' = (hands s)\<lparr>val_n := val_n (hands s) + val_n v\<rparr>)"
  by (auto simp: case_ADD_def verify_direct_addr_def verify_indirect_addr_def Let_def
      split: if_splits checked.splits)

lemma case_ADD_IND_value:
  "case_ADD_IND p l s = Ok s' \<Longrightarrow>
   err s' = ERR_OVERFLOW \<or> err s' = ERR_UNDERFLOW \<longrightarrow>
     (\<exists>v. read_indirect (mem s) p = Ok v \<and>
          hands s' = (hands s)\<lparr>val_n := val_n (hands s) + val_n v\<rparr>)"
  by (auto simp: case_ADD_IND_def verify_direct_addr_def verify_indirect_addr_def Let_def
      split: if_splits checked.splits)

lemma case_SUB_value:
  "case_SUB p l s = Ok s' \<Longrightarrow>
   err s' = ERR_OVERFLOW \<or> err s' = ERR_UNDERFLOW \<longrightarrow>
     (\<exists>v. array_read (mem s) (sint (val_n p)) = Ok v \<and>
          hands s' = (hands s)\<lparr>val_n := val_n (hands s) - val_n v\<rparr>)"
  by (auto simp: case_SUB_def verify_direct_addr_def verify_indirect_addr_def Let_def
      split: if_splits checked.splits)

lemma case_SUB_IND_value:
  "case_SUB_IND p l s = Ok s' \<Longrightarrow>
   err s' = ERR_OVERFLOW \<or> err s' = ERR_UNDERFLOW \<longrightarrow>
     (\<exists>v. read_indirect (mem s) p = Ok v \<and>
          hands s' = (hands s)\<lparr>val_n := val_n (hands s) - val_n v\<rparr>)"
  by (auto simp: case_SUB_IND_def verify_direct_addr_def verify_indirect_addr_def Let_def
      split: if_splits checked.splits)

lemma frame_eq:
  "s' = s\<lparr>hands := h, pgm_num_instructions_executed := c, err := e\<rparr> \<Longrightarrow>
   mem s' = mem s \<and> out_fifo s' = out_fifo s \<and> out_fifo_num_vals s' = out_fifo_num_vals s \<and>
   in_fifo s' = in_fifo s \<and> in_fifo_val_idx s' = in_fifo_val_idx s \<and>
   pgm_pc s' = pgm_pc s \<and> inbox_empty s' = inbox_empty s"
  by simp

text \<open>
  Claim C9 says that a step that sets an error leaves the hands, the memory and the
  output as they were after the last completed instruction. For \<open>ADD\<close> and \<open>SUB\<close> this
  is not so: the result is stored into the hands before it is compared. The program
  \<open>INBOX; ADD 0\<close> on the input of \<open>main.c\<close>, with 995 in cell 0: after the \<open>INBOX\<close> the
  hands hold 7; the \<open>ADD\<close> fails, and the run ends with \<open>ERR_OVERFLOW\<close> and with 1002 in
  the hands.
\<close>

theorem add_overflow_changes_hands:
  "run_steps 1 [\<lparr>inst = INBOX, param = \<lparr>type = EMPTY, val_n = 0\<rparr>\<rparr>,
                \<lparr>inst = ADD, param = \<lparr>type = NUM, val_n = 0\<rparr>\<rparr>] 2 1
     (initial_state [\<lparr>type = NUM, val_n = 995\<rparr>] hands_init in_fifo_init out_fifo_init) =
   Some \<lparr>hands = \<lparr>type = NUM, val_n = 7\<rparr>, in_fifo = in_fifo_init,
         out_fifo = out_fifo_init, mem = [\<lparr>type = NUM, val_n = 995\<rparr>],
         pgm_num_instructions_executed = 1, pgm_pc = 1, inbox_empty = 0,
         in_fifo_val_idx = 1, out_fifo_num_vals = 0, err = ERR_NONE\<rparr> \<and>
   execute [\<lparr>inst = INBOX, param = \<lparr>type = EMPTY, val_n = 0\<rparr>\<rparr>,
            \<lparr>inst = ADD, param = \<lparr>type = NUM, val_n = 0\<rparr>\<rparr>] 2
     [\<lparr>type = NUM, val_n = 995\<rparr>] 1 hands_init in_fifo_init out_fifo_init =
   Some (Ok \<lparr>hands = \<lparr>type = NUM, val_n = 1002\<rparr>, in_fifo = in_fifo_init,
             out_fifo = out_fifo_init, mem = [\<lparr>type = NUM, val_n = 995\<rparr>],
             pgm_num_instructions_executed = 1, pgm_pc = 1, inbox_empty = 0,
             in_fifo_val_idx = 1, out_fifo_num_vals = 0, err = ERR_OVERFLOW\<rparr>)"
proof
  show "run_steps 1 [\<lparr>inst = INBOX, param = \<lparr>type = EMPTY, val_n = 0\<rparr>\<rparr>,
                \<lparr>inst = ADD, param = \<lparr>type = NUM, val_n = 0\<rparr>\<rparr>] 2 1
     (initial_state [\<lparr>type = NUM, val_n = 995\<rparr>] hands_init in_fifo_init out_fifo_init) =
   Some \<lparr>hands = \<lparr>type = NUM, val_n = 7\<rparr>, in_fifo = in_fifo_init,
         out_fifo = out_fifo_init, mem = [\<lparr>type = NUM, val_n = 995\<rparr>],
         pgm_num_instructions_executed = 1, pgm_pc = 1, inbox_empty = 0,
         in_fifo_val_idx = 1, out_fifo_num_vals = 0, err = ERR_NONE\<rparr>"
    by (simp add: run_steps_1 data_defs run_defs)
next
  show "execute [\<lparr>inst = INBOX, param = \<lparr>type = EMPTY, val_n = 0\<rparr>\<rparr>,
            \<lparr>inst = ADD, param = \<lparr>type = NUM, val_n = 0\<rparr>\<rparr>] 2
     [\<lparr>type = NUM, val_n = 995\<rparr>] 1 hands_init in_fifo_init out_fifo_init =
   Some (Ok \<lparr>hands = \<lparr>type = NUM, val_n = 1002\<rparr>, in_fifo = in_fifo_init,
             out_fifo = out_fifo_init, mem = [\<lparr>type = NUM, val_n = 995\<rparr>],
             pgm_num_instructions_executed = 1, pgm_pc = 1, inbox_empty = 0,
             in_fifo_val_idx = 1, out_fifo_num_vals = 0, err = ERR_OVERFLOW\<rparr>)"
    by (rule execute_by_steps [where n = 2])
      (simp_all add: run_steps_numeral run_steps_1 data_defs run_defs)
qed

text \<open>
  Claim C9, amended. A step that sets an error leaves the memory bank, the output array
  and its count, the input array and its cursor and the program counter as they were
  before the step, and the type flag of the hands. The hands are unchanged too, unless
  the instruction is an \<open>ADD\<close> or \<open>SUB\<close> (direct or indirect) and the error is
  \<open>ERR_OVERFLOW\<close> or \<open>ERR_UNDERFLOW\<close>: then the number in the hands has already been
  replaced by the computed result, the number the hands held plus (for \<open>ADD\<close>) or minus
  (for \<open>SUB\<close>) the number of the addressed cell, in 16-bit arithmetic.
\<close>

theorem failing_step_frame:
  assumes ok: "err s = ERR_NONE"
    and fetch: "array_read pgm (uint (pgm_pc s)) = Ok i"
    and step: "execute_step pgm mem_len s = Ok s'"
    and bad: "err s' \<noteq> ERR_NONE"
  shows "mem s' = mem s \<and> out_fifo s' = out_fifo s \<and>
         out_fifo_num_vals s' = out_fifo_num_vals s \<and>
         in_fifo s' = in_fifo s \<and> in_fifo_val_idx s' = in_fifo_val_idx s \<and>
         pgm_pc s' = pgm_pc s \<and> inbox_empty s' = inbox_empty s \<and>
         type (hands s') = type (hands s) \<and>
         (inst i \<notin> {ADD, ADD_IND, SUB, SUB_IND} \<longrightarrow> hands s' = hands s) \<and>
         (err s' \<noteq> ERR_OVERFLOW \<and> err s' \<noteq> ERR_UNDERFLOW \<longrightarrow> hands s' = hands s) \<and>
         (inst i = ADD \<and> (err s' = ERR_OVERFLOW \<or> err s' = ERR_UNDERFLOW) \<longrightarrow>
            (\<exists>v. array_read (mem s) (sint (val_n (param i))) = Ok v \<and>
                 hands s' = (hands s)\<lparr>val_n := val_n (hands s) + val_n v\<rparr>)) \<and>
         (inst i = ADD_IND \<and> (err s' = ERR_OVERFLOW \<or> err s' = ERR_UNDERFLOW) \<longrightarrow>
            (\<exists>v. read_indirect (mem s) (param i) = Ok v \<and>
                 hands s' = (hands s)\<lparr>val_n := val_n (hands s) + val_n v\<rparr>)) \<and>
         (inst i = SUB \<and> (err s' = ERR_OVERFLOW \<or> err s' = ERR_UNDERFLOW) \<longrightarrow>
            (\<exists>v. array_read (mem s) (sint (val_n (param i))) = Ok v \<and>
                 hands s' = (hands s)\<lparr>val_n := val_n (hands s) - val_n v\<rparr>)) \<and>
         (inst i = SUB_IND \<and> (err s' = ERR_OVERFLOW \<or> err s' = ERR_UNDERFLOW) \<longrightarrow>
            (\<exists>v. read_indirect (mem s) (param i) = Ok v \<and>
                 hands s' = (hands s)\<lparr>val_n := val_n (hands s) - val_n v\<rparr>))"
proof -
  from step fetch have d: "dispatch i mem_len s = Ok s'"
    by (simp add: execute_step_def)
  show ?thesis
  proof (cases "inst i")
    case INBOX
    with d have "case_INBOX s = Ok s'" by (simp add: dispatch_def)
    note e = case_INBOX_error [OF this ok bad]
    from frame_eq [OF e [THEN conjunct1]] e [THEN conjunct2] INBOX show ?thesis by simp
  next
    case OUTBOX
    with d have "case_OUTBOX s = Ok s'" by (simp add: dispatch_def)
    note e = case_OUTBOX_error [OF this ok bad]
    from frame_eq [OF e [THEN conjunct1]] e [THEN conjunct2] OUTBOX show ?thesis by simp
  next
    case COPYFROM
    with d have "case_COPYFROM (param i) mem_len s = Ok s'" by (simp add: dispatch_def)
    note e = case_COPYFROM_error [OF this ok bad]
    from frame_eq [OF e [THEN conjunct1]] e [THEN conjunct2] COPYFROM show ?thesis by simp
  next
    case COPYFROM_IND
    with d have "case_COPYFROM_IND (param i) mem_len s = Ok s'" by (simp add: dispatch_def)
    note e = case_COPYFROM_IND_error [OF this ok bad]
    from frame_eq [OF e [THEN conjunct1]] e [THEN conjunct2] COPYFROM_IND show ?thesis by simp
  next
    case COPYTO
    with d have "case_COPYTO (param i) mem_len s = Ok s'" by (simp add: dispatch_def)
    note e = case_COPYTO_error [OF this ok bad]
    from frame_eq [OF e [THEN conjunct1]] e [THEN conjunct2] COPYTO show ?thesis by simp
  next
    case COPYTO_IND
    with d have "case_COPYTO_IND (param i) mem_len s = Ok s'" by (simp add: dispatch_def)
    note e = case_COPYTO_IND_error [OF this ok bad]
    from frame_eq [OF e [THEN conjunct1]] e [THEN conjunct2] COPYTO_IND show ?thesis by simp
  next
    case ADD
    with d have c: "case_ADD (param i) mem_len s = Ok s'" by (simp add: dispatch_def)
    note e = case_ADD_error [OF c ok bad]
    from frame_eq [OF e [THEN conjunct1]] e [THEN conjunct2] case_ADD_value [OF c] ADD
    show ?thesis by simp
  next
    case ADD_IND
    with d have c: "case_ADD_IND (param i) mem_len s = Ok s'" by (simp add: dispatch_def)
    note e = case_ADD_IND_error [OF c ok bad]
    from frame_eq [OF e [THEN conjunct1]] e [THEN conjunct2] case_ADD_IND_value [OF c] ADD_IND
    show ?thesis by simp
  next
    case SUB
    with d have c: "case_SUB (param i) mem_len s = Ok s'" by (simp add: dispatch_def)
    note e = case_SUB_error [OF c ok bad]
    from frame_eq [OF e [THEN conjunct1]] e [THEN conjunct2] case_SUB_value [OF c] SUB
    show ?thesis by simp
  next
    case SUB_IND
    with d have c: "case_SUB_IND (param i) mem_len s = Ok s'" by (simp add: dispatch_def)
    note e = case_SUB_IND_error [OF c ok bad]
    from frame_eq [OF e [THEN conjunct1]] e [THEN conjunct2] case_SUB_IND_value [OF c] SUB_IND
    show ?thesis by simp
  next
    case BUMP_PLUS
    with d have "case_BUMP_PLUS (param i) mem_len s = Ok s'" by (simp add: dispatch_def)
    note e = case_BUMP_PLUS_error [OF this ok bad]
    from frame_eq [OF e [THEN conjunct1]] e [THEN conjunct2] BUMP_PLUS show ?thesis by simp
  next
    case BUMP_PLUS_IND
    with d have "case_BUMP_PLUS_IND (param i) mem_len s = Ok s'" by (simp add: dispatch_def)
    note e = case_BUMP_PLUS_IND_error [OF this ok bad]
    from frame_eq [OF e [THEN conjunct1]] e [THEN conjunct2] BUMP_PLUS_IND show ?thesis by simp
  next
    case BUMP_MINUS
    with d have "case_BUMP_MINUS (param i) mem_len s = Ok s'" by (simp add: dispatch_def)
    note e = case_BUMP_MINUS_error [OF this ok bad]
    from frame_eq [OF e [THEN conjunct1]] e [THEN conjunct2] BUMP_MINUS show ?thesis by simp
  next
    case BUMP_MINUS_IND
    with d have "case_BUMP_MINUS_IND (param i) mem_len s = Ok s'" by (simp add: dispatch_def)
    note e = case_BUMP_MINUS_IND_error [OF this ok bad]
    from frame_eq [OF e [THEN conjunct1]] e [THEN conjunct2] BUMP_MINUS_IND show ?thesis by simp
  next
    case JUMP
    with d have "case_JUMP (param i) s = Ok s'" by (simp add: dispatch_def)
    note e = case_JUMP_error [OF this ok bad]
    from frame_eq [OF e [THEN conjunct1]] e [THEN conjunct2] JUMP show ?thesis by simp
  next
    case JUMP_ZERO
    with d have "case_JUMP_ZERO (param i) s = Ok s'" by (simp add: dispatch_def)
    note e = case_JUMP_ZERO_error [OF this ok bad]
    from frame_eq [OF e [THEN conjunct1]] e [THEN conjunct2] JUMP_ZERO show ?thesis by simp
  next
    case JUMP_NEGATIVE
    with d have "case_JUMP_NEGATIVE (param i) s = Ok s'" by (simp add: dispatch_def)
    note e = case_JUMP_NEGATIVE_error [OF this ok bad]
    from frame_eq [OF e [THEN conjunct1]] e [THEN conjunct2] JUMP_NEGATIVE show ?thesis by simp
  qed
qed

theorem failing_step_frame_witness:
  "execute_step [\<lparr>inst = ADD, param = \<lparr>type = NUM, val_n = 0\<rparr>\<rparr>] 1
     (initial_state [\<lparr>type = NUM, val_n = 500\<rparr>] \<lparr>type = NUM, val_n = 600\<rparr> [] []) =
     Ok ((initial_state [\<lparr>type = NUM, val_n = 500\<rparr>] \<lparr>type = NUM, val_n = 600\<rparr> [] [])
          \<lparr>hands := \<lparr>type = NUM, val_n = 1100\<rparr>, err := ERR_OVERFLOW\<rparr>) \<and>
   mem ((initial_state [\<lparr>type = NUM, val_n = 500\<rparr>] \<lparr>type = NUM, val_n = 600\<rparr> [] [])
          \<lparr>hands := \<lparr>type = NUM, val_n = 1100\<rparr>, err := ERR_OVERFLOW\<rparr>) =
     [\<lparr>type = NUM, val_n = 500\<rparr>] \<and>
   execute_step [\<lparr>inst = OUTBOX, param = \<lparr>type = EMPTY, val_n = 0\<rparr>\<rparr>] 0
     (initial_state [] \<lparr>type = EMPTY, val_n = 0\<rparr> [] []) =
     Ok ((initial_state [] \<lparr>type = EMPTY, val_n = 0\<rparr> [] [])
          \<lparr>err := ERR_EMPTY_HANDS, pgm_num_instructions_executed := 1\<rparr>) \<and>
   hands ((initial_state [] \<lparr>type = EMPTY, val_n = 0\<rparr> [] [])
          \<lparr>err := ERR_EMPTY_HANDS, pgm_num_instructions_executed := 1\<rparr>) =
     \<lparr>type = EMPTY, val_n = 0\<rparr>"
proof -
  let ?s = "initial_state [\<lparr>type = NUM, val_n = 500\<rparr>] \<lparr>type = NUM, val_n = 600\<rparr> [] []"
  let ?s' = "?s\<lparr>hands := \<lparr>type = NUM, val_n = 1100\<rparr>, err := ERR_OVERFLOW\<rparr>"
  let ?t = "initial_state [] \<lparr>type = EMPTY, val_n = 0\<rparr> [] []"
  let ?t' = "?t\<lparr>err := ERR_EMPTY_HANDS, pgm_num_instructions_executed := 1\<rparr>"
  have ok: "err ?s = ERR_NONE" "err ?t = ERR_NONE"
    by (simp_all add: initial_state_def)
  have fetch:
    "array_read [\<lparr>inst = ADD, param = \<lparr>type = NUM, val_n = 0\<rparr>\<rparr>] (uint (pgm_pc ?s)) =
       Ok \<lparr>inst = ADD, param = \<lparr>type = NUM, val_n = 0\<rparr>\<rparr>"
    "array_read [\<lparr>inst = OUTBOX, param = \<lparr>type = EMPTY, val_n = 0\<rparr>\<rparr>] (uint (pgm_pc ?t)) =
       Ok \<lparr>inst = OUTBOX, param = \<lparr>type = EMPTY, val_n = 0\<rparr>\<rparr>"
    by (simp_all add: array_read_def initial_state_def)
  have step1: "execute_step [\<lparr>inst = ADD, param = \<lparr>type = NUM, val_n = 0\<rparr>\<rparr>] 1 ?s = Ok ?s'"
    by (simp add: initial_state_def run_defs)
  have step2: "execute_step [\<lparr>inst = OUTBOX, param = \<lparr>type = EMPTY, val_n = 0\<rparr>\<rparr>] 0 ?t = Ok ?t'"
    by (simp add: initial_state_def run_defs)
  have bad: "err ?s' \<noteq> ERR_NONE" "err ?t' \<noteq> ERR_NONE"
    by simp_all
  have h: "hands ?t = \<lparr>type = EMPTY, val_n = 0\<rparr>" "mem ?s = [\<lparr>type = NUM, val_n = 500\<rparr>]"
    by (simp_all add: initial_state_def)
  from failing_step_frame [OF ok(1) fetch(1) step1 bad(1)]
    failing_step_frame [OF ok(2) fetch(2) step2 bad(2)] step1 step2 h
  show ?thesis by simp
qed

subsection \<open>Range checks of the arithmetic\<close>

text \<open>
  Claim C1 says that a result within \<open>[-999, 999]\<close> is kept and the step succeeds. The
  source compares the result with 999 on both sides (\<^verbatim>\<open>hands.val.n < 999\<close> for the
  underflow), so every result below 999 is reported as an underflow. The program
  \<open>INBOX; ADD 0\<close>, run on the input of \<open>main.c\<close> (first value 7) with 3 in cell 0, ends
  with \<open>ERR_UNDERFLOW\<close>, the sum 10 in the hands. \<open>BUMP_MINUS 0\<close> on a cell holding 5
  fails with \<open>ERR_UNDERFLOW\<close> and leaves the cell at 5.
\<close>

theorem add_within_range_reports_underflow:
  "execute [\<lparr>inst = INBOX, param = \<lparr>type = EMPTY, val_n = 0\<rparr>\<rparr>,
            \<lparr>inst = ADD, param = \<lparr>type = NUM, val_n = 0\<rparr>\<rparr>] 2
     [\<lparr>type = NUM, val_n = 3\<rparr>] 1 hands_init in_fifo_init out_fifo_init =
   Some (Ok \<lparr>hands = \<lparr>type = NUM, val_n = 10\<rparr>, in_fifo = in_fifo_init,
             out_fifo = out_fifo_init, mem = [\<lparr>type = NUM, val_n = 3\<rparr>],
             pgm_num_instructions_executed = 1, pgm_pc = 1, inbox_empty = 0,
             in_fifo_val_idx = 1, out_fifo_num_vals = 0, err = ERR_UNDERFLOW\<rparr>) \<and>
   execute_step [\<lparr>inst = BUMP_MINUS, param = \<lparr>type = NUM, val_n = 0\<rparr>\<rparr>] 1
     (initial_state [\<lparr>type = NUM, val_n = 5\<rparr>] hands_init in_fifo_init out_fifo_init) =
   Ok \<lparr>hands = hands_init, in_fifo = in_fifo_init, out_fifo = out_fifo_init,
       mem = [\<lparr>type = NUM, val_n = 5\<rparr>],
       pgm_num_instructions_executed = 0, pgm_pc = 0, inbox_empty = 0,
       in_fifo_val_idx = 0, out_fifo_num_vals = 0, err = ERR_UNDERFLOW\<rparr>"
proof
  show "execute [\<lparr>inst = INBOX, param = \<lparr>type = EMPTY, val_n = 0\<rparr>\<rparr>,
            \<lparr>inst = ADD, param = \<lparr>type = NUM, val_n = 0\<rparr>\<rparr>] 2
     [\<lparr>type = NUM, val_n = 3\<rparr>] 1 hands_init in_fifo_init out_fifo_init =
   Some (Ok \<lparr>hands = \<lparr>type = NUM, val_n = 10\<rparr>, in_fifo = in_fifo_init,
             out_fifo = out_fifo_init, mem = [\<lparr>type = NUM, val_n = 3\<rparr>],
             pgm_num_instructions_executed = 1, pgm_pc = 1, inbox_empty = 0,
             in_fifo_val_idx = 1, out_fifo_num_vals = 0, err = ERR_UNDERFLOW\<rparr>)"
    by (rule execute_by_steps [where n = 2])
      (simp_all add: run_steps_numeral run_steps_1 data_defs run_defs)
next
  show "execute_step [\<lparr>inst = BUMP_MINUS, param = \<lparr>type = NUM, val_n = 0\<rparr>\<rparr>] 1
     (initial_state [\<lparr>type = NUM, val_n = 5\<rparr>] hands_init in_fifo_init out_fifo_init) =
   Ok \<lparr>hands = hands_init, in_fifo = in_fifo_init, out_fifo = out_fifo_init,
       mem = [\<lparr>type = NUM, val_n = 5\<rparr>],
       pgm_num_instructions_executed = 0, pgm_pc = 0, inbox_empty = 0,
       in_fifo_val_idx = 0, out_fifo_num_vals = 0, err = ERR_UNDERFLOW\<rparr>"
    by (simp add: initial_state_def run_defs)
qed

subsection \<open>The program counter and the instruction counter\<close>

text \<open>The twelve cases that address memory write neither the program counter nor the
  counter of executed instructions.\<close>

lemma case_COPYFROM_counters:
  "case_COPYFROM p l s = Ok s' \<Longrightarrow>
   pgm_pc s' = pgm_pc s \<and> pgm_num_instructions_executed s' = pgm_num_instructions_executed s"
  by (auto simp: case_COPYFROM_def Let_def split: if_splits checked.splits)

lemma case_COPYFROM_IND_counters:
  "case_COPYFROM_IND p l s = Ok s' \<Longrightarrow>
   pgm_pc s' = pgm_pc s \<and> pgm_num_instructions_executed s' = pgm_num_instructions_executed s"
  by (auto simp: case_COPYFROM_IND_def Let_def split: if_splits checked.splits)

lemma case_COPYTO_counters:
  "case_COPYTO p l s = Ok s' \<Longrightarrow>
   pgm_pc s' = pgm_pc s \<and> pgm_num_instructions_executed s' = pgm_num_instructions_executed s"
  by (auto simp: case_COPYTO_def Let_def split: if_splits checked.splits)

lemma case_COPYTO_IND_counters:
  "case_COPYTO_IND p l s = Ok s' \<Longrightarrow>
   pgm_pc s' = pgm_pc s \<and> pgm_num_instructions_executed s' = pgm_num_instructions_executed s"
  by (auto simp: case_COPYTO_IND_def Let_def split: if_splits checked.splits)

lemma case_ADD_counters:
  "case_ADD p l s = Ok s' \<Longrightarrow>
   pgm_pc s' = pgm_pc s \<and> pgm_num_instructions_executed s' = pgm_num_instructions_executed s"
  by (auto simp: case_ADD_def Let_def split: if_splits checked.splits)

lemma case_ADD_IND_counters:
  "case_ADD_IND p l s = Ok s' \<Longrightarrow>
   pgm_pc s' = pgm_pc s \<and> pgm_num_instructions_executed s' = pgm_num_instructions_executed s"
  by (auto simp: case_ADD_IND_def Let_def split: if_splits checked.splits)

lemma case_SUB_counters:
  "case_SUB p l s = Ok s' \<Longrightarrow>
   pgm_pc s' = pgm_pc s \<and> pgm_num_instructions_executed s' = pgm_num_instructions_executed s"
  by (auto simp: case_SUB_def Let_def split: if_splits checked.splits)

lemma case_SUB_IND_counters:
  "case_SUB_IND p l s = Ok s' \<Longrightarrow>
   pgm_pc s' = pgm_pc s \<and> pgm_num_instructions_executed s' = pgm_num_instructions_executed s"
  by (auto simp: case_SUB_IND_def Let_def split: if_splits checked.splits)

lemma case_BUMP_PLUS_counters:
  "case_BUMP_PLUS p l s = Ok s' \<Longrightarrow>
   pgm_pc s' = pgm_pc s \<and> pgm_num_instructions_executed s' = pgm_num_instructions_executed s"
  by (auto simp: case_BUMP_PLUS_def Let_def split: if_splits checked.splits)

lemma case_BUMP_PLUS_IND_counters:
  "case_BUMP_PLUS_IND p l s = Ok s' \<Longrightarrow>
   pgm_pc s' = pgm_pc s \<and> pgm_num_instructions_executed s' = pgm_num_instructions_executed s"
  by (auto simp: case_BUMP_PLUS_IND_def Let_def split: if_splits checked.splits)

lemma case_BUMP_MINUS_counters:
  "case_BUMP_MINUS p l s = Ok s' \<Longrightarrow>
   pgm_pc s' = pgm_pc s \<and> pgm_num_instructions_executed s' = pgm_num_instructions_executed s"
  by (auto simp: case_BUMP_MINUS_def Let_def split: if_splits checked.splits)

lemma case_BUMP_MINUS_IND_counters:
  "case_BUMP_MINUS_IND p l s = Ok s' \<Longrightarrow>
   pgm_pc s' = pgm_pc s \<and> pgm_num_instructions_executed s' = pgm_num_instructions_executed s"
  by (auto simp: case_BUMP_MINUS_IND_def Let_def split: if_splits checked.splits)

lemma memory_steps_keep_counters:
  assumes fetch: "array_read pgm (uint (pgm_pc s)) = Ok i"
    and op: "inst i \<notin> {INBOX, OUTBOX, JUMP, JUMP_ZERO, JUMP_NEGATIVE}"
    and step: "execute_step pgm mem_len s = Ok s'"
  shows "pgm_pc s' = pgm_pc s \<and>
         pgm_num_instructions_executed s' = pgm_num_instructions_executed s"
proof -
  from step fetch have d: "dispatch i mem_len s = Ok s'"
    by (simp add: execute_step_def)
  show ?thesis
  proof (cases "inst i")
    case INBOX
    with op show ?thesis by simp
  next
    case OUTBOX
    with op show ?thesis by simp
  next
    case JUMP
    with op show ?thesis by simp
  next
    case JUMP_ZERO
    with op show ?thesis by simp
  next
    case JUMP_NEGATIVE
    with op show ?thesis by simp
  next
    case COPYFROM
    with d have "case_COPYFROM (param i) mem_len s = Ok s'" by (simp add: dispatch_def)
    then show ?thesis by (rule case_COPYFROM_counters)
  next
    case COPYFROM_IND
    with d have "case_COPYFROM_IND (param i) mem_len s = Ok s'" by (simp add: dispatch_def)
    then show ?thesis by (rule case_COPYFROM_IND_counters)
  next
    case COPYTO
    with d have "case_COPYTO (param i) mem_len s = Ok s'" by (simp add: dispatch_def)
    then show ?thesis by (rule case_COPYTO_counters)
  next
    case COPYTO_IND
    with d have "case_COPYTO_IND (param i) mem_len s = Ok s'" by (simp add: dispatch_def)
    then show ?thesis by (rule case_COPYTO_IND_counters)
  next
    case ADD
    with d have "case_ADD (param i) mem_len s = Ok s'" by (simp add: dispatch_def)
    then show ?thesis by (rule case_ADD_counters)
  next
    case ADD_IND
    with d have "case_ADD_IND (param i) mem_len s = Ok s'" by (simp add: dispatch_def)
    then show ?thesis by (rule case_ADD_IND_counters)
  next
    case SUB
    with d have "case_SUB (param i) mem_len s = Ok s'" by (simp add: dispatch_def)
    then show ?thesis by (rule case_SUB_counters)
  next
    case SUB_IND
    with d have "case_SUB_IND (param i) mem_len s = Ok s'" by (simp add: dispatch_def)
    then show ?thesis by (rule case_SUB_IND_counters)
  next
    case BUMP_PLUS
    with d have "case_BUMP_PLUS (param i) mem_len s = Ok s'" by (simp add: dispatch_def)
    then show ?thesis by (rule case_BUMP_PLUS_counters)
  next
    case BUMP_PLUS_IND
    with d have "case_BUMP_PLUS_IND (param i) mem_len s = Ok s'" by (simp add: dispatch_def)
    then show ?thesis by (rule case_BUMP_PLUS_IND_counters)
  next
    case BUMP_MINUS
    with d have "case_BUMP_MINUS (param i) mem_len s = Ok s'" by (simp add: dispatch_def)
    then show ?thesis by (rule case_BUMP_MINUS_counters)
  next
    case BUMP_MINUS_IND
    with d have "case_BUMP_MINUS_IND (param i) mem_len s = Ok s'" by (simp add: dispatch_def)
    then show ?thesis by (rule case_BUMP_MINUS_IND_counters)
  qed
qed

text \<open>
  Claim C2 says that a successful \<open>COPYFROM\<close>, \<open>COPYTO\<close>, \<open>ADD\<close>, \<open>SUB\<close> or bump advances
  the program counter by one. The cases of the source have no \<^verbatim>\<open>pgm_pc += 1\<close>. With
  5 in cell 0 and the program counter at 0, \<open>COPYFROM 0\<close> succeeds, puts 5 into the
  hands, and the program counter is still 0 (and no instruction has been counted).
\<close>

theorem copyfrom_leaves_program_counter:
  "execute_step [\<lparr>inst = COPYFROM, param = \<lparr>type = NUM, val_n = 0\<rparr>\<rparr>] 1
     \<lparr>hands = \<lparr>type = EMPTY, val_n = 0\<rparr>, in_fifo = [], out_fifo = [],
      mem = [\<lparr>type = NUM, val_n = 5\<rparr>],
      pgm_num_instructions_executed = 0, pgm_pc = 0, inbox_empty = 0,
      in_fifo_val_idx = 0, out_fifo_num_vals = 0, err = ERR_NONE\<rparr> =
   Ok \<lparr>hands = \<lparr>type = NUM, val_n = 5\<rparr>, in_fifo = [], out_fifo = [],
       mem = [\<lparr>type = NUM, val_n = 5\<rparr>],
       pgm_num_instructions_executed = 0, pgm_pc = 0, inbox_empty = 0,
       in_fifo_val_idx = 0, out_fifo_num_vals = 0, err = ERR_NONE\<rparr>"
  by (simp add: run_defs)

subsection \<open>The instruction budget\<close>

lemma of_nat_le_1000:
  "n \<le> 1001 \<Longrightarrow> (of_nat n :: 16 word) \<le> 1000 \<longleftrightarrow> n \<le> 1000"
proof -
  assume n: "n \<le> 1001"
  have "unat (of_nat n :: 16 word) = n"
    using n by (simp add: unat_of_nat)
  then show ?thesis
    by (simp add: word_le_nat_alt)
qed

text \<open>The program that jumps to itself: from a count of \<open>k \<le> 1001\<close> the loop runs until
  the count is 1001.\<close>

lemma jump_loop_from:
  assumes "k \<le> 1001"
  shows "execute_loop [\<lparr>inst = JUMP, param = \<lparr>type = PROG_ADDR, val_n = 1\<rparr>\<rparr>] 1 mem_len
           (s\<lparr>pgm_num_instructions_executed := of_nat k, pgm_pc := 0, inbox_empty := 0, err := ERR_NONE\<rparr>)
         = Some (Ok (s\<lparr>pgm_num_instructions_executed := 1001, pgm_pc := 0, inbox_empty := 0, err := ERR_NONE\<rparr>))"
  using assms
proof (induction "1001 - k" arbitrary: k)
  case 0
  then have k: "k = 1001" by simp
  have "\<not> (of_nat k :: 16 word) \<le> 1000"
    using of_nat_le_1000 [of k] k by simp
  then have "\<not> loop_cond 1 (s\<lparr>pgm_num_instructions_executed := of_nat k, pgm_pc := 0, inbox_empty := 0, err := ERR_NONE\<rparr>)"
    by (simp add: loop_cond_def MAX_INSTRUCTIONS_ALLOWED_def)
  from loop_exit [OF this] show ?case
    by (simp add: k)
next
  case (Suc d)
  let ?pgm = "[\<lparr>inst = JUMP, param = \<lparr>type = PROG_ADDR, val_n = 1\<rparr>\<rparr>]"
  let ?s = "s\<lparr>pgm_num_instructions_executed := of_nat k, pgm_pc := 0, inbox_empty := 0, err := ERR_NONE\<rparr>"
  let ?s' = "s\<lparr>pgm_num_instructions_executed := of_nat (Suc k), pgm_pc := 0, inbox_empty := 0, err := ERR_NONE\<rparr>"
  from Suc.hyps(2) have k: "k \<le> 1000" by simp
  have le: "(of_nat k :: 16 word) \<le> 1000"
    using k by (simp add: of_nat_le_1000)
  have c: "loop_cond 1 ?s"
    using le by (simp add: loop_cond_def MAX_INSTRUCTIONS_ALLOWED_def)
  have st: "execute_step ?pgm mem_len ?s = Ok ?s'"
    by (simp add: run_defs add.commute)
  have "d = 1001 - Suc k" "Suc k \<le> 1001"
    using Suc.hyps(2) k by simp_all
  from Suc.hyps(1) [OF this] loop_unfold [OF c st] show ?case
    by simp
qed

lemma jump_run_reaches:
  assumes "k \<le> 1001"
  shows "run_reaches [\<lparr>inst = JUMP, param = \<lparr>type = PROG_ADDR, val_n = 1\<rparr>\<rparr>] 1 mem_len
           (s\<lparr>pgm_num_instructions_executed := of_nat k, pgm_pc := 0, inbox_empty := 0, err := ERR_NONE\<rparr>)
           (s\<lparr>pgm_num_instructions_executed := 1001, pgm_pc := 0, inbox_empty := 0, err := ERR_NONE\<rparr>)"
  using assms
proof (induction "1001 - k" arbitrary: k)
  case 0
  then have k: "k = 1001" by simp
  show ?case
    by (simp add: k run_reaches.here)
next
  case (Suc d)
  let ?pgm = "[\<lparr>inst = JUMP, param = \<lparr>type = PROG_ADDR, val_n = 1\<rparr>\<rparr>]"
  let ?s = "s\<lparr>pgm_num_instructions_executed := of_nat k, pgm_pc := 0, inbox_empty := 0, err := ERR_NONE\<rparr>"
  let ?s' = "s\<lparr>pgm_num_instructions_executed := of_nat (Suc k), pgm_pc := 0, inbox_empty := 0, err := ERR_NONE\<rparr>"
  from Suc.hyps(2) have k: "k \<le> 1000" by simp
  have le: "(of_nat k :: 16 word) \<le> 1000"
    using k by (simp add: of_nat_le_1000)
  have c: "loop_cond 1 ?s"
    using le by (simp add: loop_cond_def MAX_INSTRUCTIONS_ALLOWED_def)
  have st: "execute_step ?pgm mem_len ?s = Ok ?s'"
    by (simp add: run_defs add.commute)
  have "d = 1001 - Suc k" "Suc k \<le> 1001"
    using Suc.hyps(2) k by simp_all
  from run_reaches.step [OF c st Suc.hyps(1) [OF this]] show ?case .
qed

text \<open>
  Claim C3 says that every iteration counts one instruction, that a run executes at
  most 1000 instructions, and that \<open>execute\<close> always returns. In the source the
  memory cases neither count nor advance: the program \<open>COPYFROM 0\<close> on a cell holding
  5 repeats its only instruction for ever, whatever the hands and queues (first
  part). And the loop runs while the count is \<^verbatim>\<open><= MAX_INSTRUCTIONS_ALLOWED\<close>: the
  program \<open>JUMP 1\<close> returns with 1001 instructions executed, and with \<open>ERR_NONE\<close>
  (second part).
\<close>

theorem budget_not_enforced:
  "execute [\<lparr>inst = COPYFROM, param = \<lparr>type = NUM, val_n = 0\<rparr>\<rparr>] 1
     [\<lparr>type = NUM, val_n = 5\<rparr>] 1 hands0 in_fifo0 out_fifo0 = None \<and>
   execute [\<lparr>inst = JUMP, param = \<lparr>type = PROG_ADDR, val_n = 1\<rparr>\<rparr>] 1
     mem0 mem_len hands0 in_fifo0 out_fifo0 =
   Some (Ok \<lparr>hands = hands0, in_fifo = in_fifo0, out_fifo = out_fifo0, mem = mem0,
             pgm_num_instructions_executed = 1001, pgm_pc = 0, inbox_empty = 0,
             in_fifo_val_idx = 0, out_fifo_num_vals = 0, err = ERR_NONE\<rparr>)"
proof
  let ?I = "\<lambda>s. pgm_pc s = 0 \<and> mem s = [\<lparr>type = NUM, val_n = 5\<rparr>] \<and>
    err s = ERR_NONE \<and> inbox_empty s = 0 \<and> pgm_num_instructions_executed s = 0"
  have start: "?I (initial_state [\<lparr>type = NUM, val_n = 5\<rparr>] hands0 in_fifo0 out_fifo0)"
    by (simp add: initial_state_def)
  have inv: "loop_cond 1 s \<and>
      (\<exists>s'. execute_step [\<lparr>inst = COPYFROM, param = \<lparr>type = NUM, val_n = 0\<rparr>\<rparr>] 1 s = Ok s' \<and>
         ?I s')" if "?I s" for s
    using that by (simp add: loop_cond_def MAX_INSTRUCTIONS_ALLOWED_def run_defs)
  show "execute [\<lparr>inst = COPYFROM, param = \<lparr>type = NUM, val_n = 0\<rparr>\<rparr>] 1
     [\<lparr>type = NUM, val_n = 5\<rparr>] 1 hands0 in_fifo0 out_fifo0 = None"
    unfolding execute_def
    by (rule loop_diverges [where I = ?I, OF inv start])
next
  show "execute [\<lparr>inst = JUMP, param = \<lparr>type = PROG_ADDR, val_n = 1\<rparr>\<rparr>] 1
     mem0 mem_len hands0 in_fifo0 out_fifo0 =
   Some (Ok \<lparr>hands = hands0, in_fifo = in_fifo0, out_fifo = out_fifo0, mem = mem0,
             pgm_num_instructions_executed = 1001, pgm_pc = 0, inbox_empty = 0,
             in_fifo_val_idx = 0, out_fifo_num_vals = 0, err = ERR_NONE\<rparr>)"
    using jump_loop_from [of 0 mem_len "initial_state mem0 hands0 in_fifo0 out_fifo0"]
    by (simp add: execute_def initial_state_def)
qed

subsection \<open>Copying from empty hands\<close>

text \<open>
  Claim C4 says that \<open>COPYTO\<close> with empty hands ends the run with \<open>ERR_EMPTY_HANDS\<close> and
  leaves the memory unchanged. The case of the source does not look at the hands
  before the copy. With empty hands and 5 in cell 0, \<open>COPYTO 0\<close> sets no error and
  overwrites the cell with the empty value.
\<close>

theorem copyto_accepts_empty_hands:
  "execute_step [\<lparr>inst = COPYTO, param = \<lparr>type = NUM, val_n = 0\<rparr>\<rparr>] 1
     \<lparr>hands = \<lparr>type = EMPTY, val_n = 0\<rparr>, in_fifo = [], out_fifo = [],
      mem = [\<lparr>type = NUM, val_n = 5\<rparr>],
      pgm_num_instructions_executed = 0, pgm_pc = 0, inbox_empty = 0,
      in_fifo_val_idx = 0, out_fifo_num_vals = 0, err = ERR_NONE\<rparr> =
   Ok \<lparr>hands = \<lparr>type = EMPTY, val_n = 0\<rparr>, in_fifo = [], out_fifo = [],
       mem = [\<lparr>type = EMPTY, val_n = 0\<rparr>],
       pgm_num_instructions_executed = 0, pgm_pc = 0, inbox_empty = 0,
       in_fifo_val_idx = 0, out_fifo_num_vals = 0, err = ERR_NONE\<rparr>"
  by (simp add: run_defs)

subsection \<open>The exhausted inbox\<close>

text \<open>
  Claim C7 says that the normal end of a run, at an \<open>INBOX\<close> with the input used up, can
  be told apart in the run's outcome from every error kind, and the kinds of the
  specification include the exceeded instruction budget. The outcome of a run is the
  value \<open>execute\<close> returns. The sample program of \<open>main\<close> ends at its last \<open>INBOX\<close> and
  returns \<open>ERR_NONE\<close>; the program \<open>JUMP 1\<close> on the same data is stopped by the budget
  with 1001 instructions executed, and returns \<open>ERR_NONE\<close> as well.
\<close>

theorem budget_run_returns_err_none:
  "main = Some (Ok (main_state_at_last_inbox
     \<lparr>inbox_empty := 1, pgm_num_instructions_executed := 30\<rparr>)) \<and>
   returned main = Some ERR_NONE \<and>
   execute [\<lparr>inst = JUMP, param = \<lparr>type = PROG_ADDR, val_n = 1\<rparr>\<rparr>] 1
     mem_zero_preservation_initiative 9 hands_init in_fifo_init out_fifo_init =
   Some (Ok ((initial_state mem_zero_preservation_initiative hands_init in_fifo_init out_fifo_init)
     \<lparr>pgm_num_instructions_executed := 1001\<rparr>)) \<and>
   returned (execute [\<lparr>inst = JUMP, param = \<lparr>type = PROG_ADDR, val_n = 1\<rparr>\<rparr>] 1
     mem_zero_preservation_initiative 9 hands_init in_fifo_init out_fifo_init) = Some ERR_NONE"
proof -
  have j: "execute [\<lparr>inst = JUMP, param = \<lparr>type = PROG_ADDR, val_n = 1\<rparr>\<rparr>] 1
     mem_zero_preservation_initiative 9 hands_init in_fifo_init out_fifo_init =
   Some (Ok ((initial_state mem_zero_preservation_initiative hands_init in_fifo_init out_fifo_init)
     \<lparr>pgm_num_instructions_executed := 1001\<rparr>))"
    using jump_loop_from [of 0 9
        "initial_state mem_zero_preservation_initiative hands_init in_fifo_init out_fifo_init"]
    by (simp add: execute_def initial_state_def)
  have m: "returned main = Some ERR_NONE"
    by (simp add: main_returns returned_def main_state_at_last_inbox_def)
  have "returned (execute [\<lparr>inst = JUMP, param = \<lparr>type = PROG_ADDR, val_n = 1\<rparr>\<rparr>] 1
     mem_zero_preservation_initiative 9 hands_init in_fifo_init out_fifo_init) = Some ERR_NONE"
    by (simp add: j returned_def initial_state_def)
  with main_returns m j show ?thesis
    by simp
qed

text \<open>
  Claim C7, amended. Whenever a run of \<open>execute\<close> comes to an \<open>INBOX\<close> instruction with
  all \<open>NUM_INBOX_VALUES\<close> input values read, \<open>execute\<close> returns. The final state is the
  state \<open>s\<close> in which the instruction was reached, with the flag \<open>inbox_empty\<close> set and
  the instruction counted, so the output array and its count, the memory and the hands
  are those of \<open>s\<close>; the value returned is \<open>ERR_NONE\<close>. Every run in which an
  instruction sets an error returns that error code, which is a different value. A run
  that the instruction budget stops (the count has passed \<open>MAX_INSTRUCTIONS_ALLOWED\<close>
  with no error set) returns \<open>ERR_NONE\<close> too: the value returned does not tell it from
  the normal end.
\<close>

theorem inbox_exhausted_halts_normally:
  assumes reach: "run_reaches pgm pgm_len mem_len (initial_state mem0 hands0 in_fifo0 out_fifo0) s"
    and cond: "loop_cond pgm_len s"
    and fetch: "array_read pgm (uint (pgm_pc s)) = Ok i"
    and inbox: "inst i = INBOX"
    and exhausted: "NUM_INBOX_VALUES \<le> uint (in_fifo_val_idx s)"
    and reach_e: "run_reaches pgm_e pgm_len_e mem_len_e
                    (initial_state mem_e hands_e in_fifo_e out_fifo_e) t"
    and cond_e: "loop_cond pgm_len_e t"
    and step_e: "execute_step pgm_e mem_len_e t = Ok u"
    and bad_e: "err u \<noteq> ERR_NONE"
    and reach_b: "run_reaches pgm_b pgm_len_b mem_len_b
                    (initial_state mem_b hands_b in_fifo_b out_fifo_b) w"
    and budget_b: "MAX_INSTRUCTIONS_ALLOWED < pgm_num_instructions_executed w"
    and ok_b: "err w = ERR_NONE"
  shows "execute pgm pgm_len mem0 mem_len hands0 in_fifo0 out_fifo0 =
           Some (Ok (s\<lparr>inbox_empty := 1,
                        pgm_num_instructions_executed := pgm_num_instructions_executed s + 1\<rparr>)) \<and>
         returned (execute pgm pgm_len mem0 mem_len hands0 in_fifo0 out_fifo0) = Some ERR_NONE \<and>
         returned (execute pgm_e pgm_len_e mem_e mem_len_e hands_e in_fifo_e out_fifo_e) =
           Some (err u) \<and>
         returned (execute pgm_e pgm_len_e mem_e mem_len_e hands_e in_fifo_e out_fifo_e) \<noteq>
           returned (execute pgm pgm_len mem0 mem_len hands0 in_fifo0 out_fifo0) \<and>
         returned (execute pgm_b pgm_len_b mem_b mem_len_b hands_b in_fifo_b out_fifo_b) =
           returned (execute pgm pgm_len mem0 mem_len hands0 in_fifo0 out_fifo0)"
proof -
  have n: "err s = ERR_NONE"
    using cond by (simp add: loop_cond_def)
  note r1 = inbox_exhausted_run [OF reach cond fetch inbox exhausted]
  note r2 = error_run [OF reach_e cond_e step_e bad_e]
  have "\<not> loop_cond pgm_len_b w"
    using budget_b by (simp add: loop_cond_def not_le)
  note r3 = ended_run [OF reach_b this]
  from r1 r2 r3 n bad_e ok_b show ?thesis
    by (simp add: returned_def)
qed

theorem inbox_exhausted_halts_normally_witness:
  "main = Some (Ok (main_state_at_last_inbox
     \<lparr>inbox_empty := 1, pgm_num_instructions_executed := 30\<rparr>)) \<and>
   returned main = Some ERR_NONE \<and>
   returned (execute [\<lparr>inst = OUTBOX, param = \<lparr>type = EMPTY, val_n = 0\<rparr>\<rparr>] 1
     mem_zero_preservation_initiative 9 hands_init in_fifo_init out_fifo_init) =
     Some ERR_EMPTY_HANDS \<and>
   returned (execute [\<lparr>inst = JUMP, param = \<lparr>type = PROG_ADDR, val_n = 1\<rparr>\<rparr>] 1
     mem_zero_preservation_initiative 9 hands_init in_fifo_init out_fifo_init) =
     Some ERR_NONE"
proof -
  let ?init = "initial_state mem_zero_preservation_initiative hands_init in_fifo_init out_fifo_init"
  let ?u = "?init\<lparr>err := ERR_EMPTY_HANDS, pgm_num_instructions_executed := 1\<rparr>"
  let ?w = "?init\<lparr>pgm_num_instructions_executed := 1001\<rparr>"
  have reach: "run_reaches pgm_zero_preservation_initiative 5 9 ?init main_state_at_last_inbox"
    by (rule run_steps_reaches [OF main_reaches_last_inbox])
  have cond: "loop_cond 5 main_state_at_last_inbox"
    by (simp add: loop_cond_def main_state_at_last_inbox_def MAX_INSTRUCTIONS_ALLOWED_def)
  have fetch: "array_read pgm_zero_preservation_initiative (uint (pgm_pc main_state_at_last_inbox)) =
      Ok \<lparr>inst = INBOX, param = \<lparr>type = EMPTY, val_n = 0\<rparr>\<rparr>"
    by (simp add: array_read_def pgm_zero_preservation_initiative_def main_state_at_last_inbox_def)
  have inbox: "inst \<lparr>inst = INBOX, param = \<lparr>type = EMPTY, val_n = 0 :: hrm_num\<rparr>\<rparr> = INBOX"
    by simp
  have exhausted: "NUM_INBOX_VALUES \<le> uint (in_fifo_val_idx main_state_at_last_inbox)"
    by (simp add: NUM_INBOX_VALUES_def main_state_at_last_inbox_def)
  have count: "pgm_num_instructions_executed main_state_at_last_inbox + 1 = 30"
    by (simp add: main_state_at_last_inbox_def)
  have reach_e: "run_reaches [\<lparr>inst = OUTBOX, param = \<lparr>type = EMPTY, val_n = 0\<rparr>\<rparr>] 1 9 ?init ?init"
    by (rule run_reaches.here)
  have cond_e: "loop_cond 1 ?init"
    by (simp add: data_defs)
  have step_e: "execute_step [\<lparr>inst = OUTBOX, param = \<lparr>type = EMPTY, val_n = 0\<rparr>\<rparr>] 9 ?init = Ok ?u"
    by (simp add: data_defs run_defs)
  have bad_e: "err ?u \<noteq> ERR_NONE"
    by simp
  have reach_b: "run_reaches [\<lparr>inst = JUMP, param = \<lparr>type = PROG_ADDR, val_n = 1\<rparr>\<rparr>] 1 9 ?init ?w"
    using jump_run_reaches [of 0 9 ?init] by (simp add: initial_state_def)
  have budget_b: "MAX_INSTRUCTIONS_ALLOWED < pgm_num_instructions_executed ?w"
    by (simp add: MAX_INSTRUCTIONS_ALLOWED_def)
  have ok_b: "err ?w = ERR_NONE"
    by (simp add: initial_state_def)
  note all = inbox_exhausted_halts_normally [OF reach cond fetch inbox exhausted
      reach_e cond_e step_e bad_e reach_b budget_b ok_b]
  have m: "main = Some (Ok (main_state_at_last_inbox
     \<lparr>inbox_empty := 1, pgm_num_instructions_executed := 30\<rparr>))"
    using all [THEN conjunct1] by (simp add: main_def count)
  have r: "returned main = Some ERR_NONE"
    using all [THEN conjunct2, THEN conjunct1] by (simp add: main_def)
  have e: "returned (execute [\<lparr>inst = OUTBOX, param = \<lparr>type = EMPTY, val_n = 0\<rparr>\<rparr>] 1
     mem_zero_preservation_initiative 9 hands_init in_fifo_init out_fifo_init) =
     Some ERR_EMPTY_HANDS"
    using all [THEN conjunct2, THEN conjunct2, THEN conjunct1] by simp
  have b: "returned (execute [\<lparr>inst = JUMP, param = \<lparr>type = PROG_ADDR, val_n = 1\<rparr>\<rparr>] 1
     mem_zero_preservation_initiative 9 hands_init in_fifo_init out_fifo_init) =
     Some ERR_NONE"
    using all [THEN conjunct2, THEN conjunct2, THEN conjunct2, THEN conjunct2]
      all [THEN conjunct2, THEN conjunct1]
    by simp
  from m r e b show ?thesis
    by blast
qed

end
